theory Spec2Isabelle
  imports Main "HOL-Library.Word" "HOL-Library.AList" "HOL-Library.Sublist"
begin

section \<open>The process controller: data model\<close>

text \<open>
  The development follows \<^verbatim>\<open>gpcprocessmgr.go\<close>, the runtime record of
  \<^verbatim>\<open>GPCProcRuntimeData\<close> and the configuration struct of package
  \<^verbatim>\<open>gpcconfig\<close>. The operating system and the Go packages \<^verbatim>\<open>os\<close>,
  \<^verbatim>\<open>os/exec\<close> and \<^verbatim>\<open>syscall\<close> are the environment: every answer they
  give (a process could be started or not, a probe succeeds or not, a file could be
  created or not) is an explicit argument of the function that asks for it, and every
  request made to them is recorded, in order, as an \<open>os_event\<close>.
\<close>

subsection \<open>Configuration (package gpcconfig)\<close>

text \<open>
  \<^verbatim>\<open>ProcessConfig\<close>. The struct declares the executable path as
  \<^verbatim>\<open>StartPath\<close>; the process manager reads it as \<^verbatim>\<open>procConfig.Path\<close>,
  the name kept here. The three counters are \<^verbatim>\<open>uint32\<close>.
\<close>

record ProcessConfig =
  Name :: string
  Path :: string
  StartArgs :: "string list"
  StartDelayS :: "32 word"
  MaxRestarts :: "32 word"
  WaitForExitTimeoutS :: "32 word"
  HideWindow :: bool
  StopPath :: string
  StopArgs :: "string list"

text \<open>The two tasks that \<^verbatim>\<open>WriteDefaultConfigFile\<close> writes as the default
  configuration.\<close>

definition default_p1 :: ProcessConfig where
  "default_p1 =
     \<lparr>Name = ''Notepad'', Path = ''notepad.exe'',
      StartArgs = [''notepad.exe'', ''myfile.txt''], StartDelayS = 0, MaxRestarts = 3,
      WaitForExitTimeoutS = 0, HideWindow = False, StopPath = [], StopArgs = [[], []]\<rparr>"

definition default_p2 :: ProcessConfig where
  "default_p2 =
     \<lparr>Name = ''Paint'', Path = ''mspaint.exe'',
      StartArgs = [''mspaint.exe'', []], StartDelayS = 5, MaxRestarts = 0,
      WaitForExitTimeoutS = 0, HideWindow = True, StopPath = [], StopArgs = [[], []]\<rparr>"

subsection \<open>Handles of os and os/exec\<close>

text \<open>An open \<^verbatim>\<open>*os.File\<close> is identified by a number; \<^verbatim>\<open>os.Create\<close>
  returns a new one at every call.\<close>

type_synonym os_File = nat

text \<open>\<^verbatim>\<open>os.Process\<close>: the field the manager reads is \<^verbatim>\<open>Pid\<close>. The
  program is written for Windows, where \<^verbatim>\<open>Release\<close> leaves \<^verbatim>\<open>Pid\<close>
  as it is (the terminator reads it after releasing).\<close>

record Process =
  Pid :: int

text \<open>\<^verbatim>\<open>exec.Cmd\<close>: \<^verbatim>\<open>Path\<close>, \<^verbatim>\<open>Args\<close>, the three streams, the
  \<^verbatim>\<open>HideWindow\<close> flag of \<^verbatim>\<open>SysProcAttr\<close> (absent until set), the deadline
  of the context given to \<^verbatim>\<open>exec.CommandContext\<close> in nanoseconds (absent for
  \<^verbatim>\<open>exec.Command\<close>) and \<^verbatim>\<open>Process\<close>, which is nil until a start
  succeeds.\<close>

record Cmd =
  cmdPath :: string
  Args :: "string list"
  Stdin :: "os_File option"
  Stdout :: "os_File option"
  Stderr :: "os_File option"
  SysProcAttr :: "bool option"
  ctxDeadline :: "nat option"
  Process :: "Process option"

text \<open>\<^verbatim>\<open>exec.Command(name)\<close> with no further argument: \<^verbatim>\<open>Args\<close> holds the
  name alone. The search of the name in the directories of \<^verbatim>\<open>PATH\<close> is left to
  the start: \<^verbatim>\<open>Path\<close> is the name as given.\<close>

definition exec_Command :: "string \<Rightarrow> Cmd" where
  "exec_Command name =
     \<lparr>cmdPath = name, Args = [name], Stdin = None, Stdout = None, Stderr = None,
      SysProcAttr = None, ctxDeadline = None, Process = None\<rparr>"

definition exec_CommandContext :: "nat \<Rightarrow> string \<Rightarrow> Cmd" where
  "exec_CommandContext deadline name = (exec_Command name)\<lparr>ctxDeadline := Some deadline\<rparr>"

subsection \<open>The runtime record\<close>

text \<open>The anonymous struct \<^verbatim>\<open>procStatus\<close>. Its field \<^verbatim>\<open>done\<close> is written
  \<open>done_flag\<close>, \<^verbatim>\<open>done\<close> being a keyword of the proof language.\<close>

record ProcStatus =
  pid :: int
  active :: bool
  error :: bool
  timeout :: bool
  done_flag :: bool
  restartCount :: "32 word"

record GPCProcRuntimeData =
  procConfig :: ProcessConfig
  procCmd :: "Cmd option"
  procLog :: "os_File option"
  procStatus :: ProcStatus

definition NewProcRuntimeData :: "ProcessConfig \<Rightarrow> GPCProcRuntimeData" where
  "NewProcRuntimeData configData =
     \<lparr>procConfig = configData, procCmd = None, procLog = None,
      procStatus = \<lparr>pid = 0, active = False, error = False, timeout = False,
                    done_flag = False, restartCount = 0\<rparr>\<rparr>"

subsection \<open>Requests to the environment, errors and panics\<close>

text \<open>\<^verbatim>\<open>strconv.Itoa\<close>: the decimal digits of an integer.\<close>

function nat_digits :: "nat \<Rightarrow> string" where
  "nat_digits n =
     (if n < 10 then [char_of (48 + n)]
      else nat_digits (n div 10) @ [char_of (48 + n mod 10)])"
  by pat_completeness auto
termination
  by (relation "measure (\<lambda>n. n)") auto

definition Itoa :: "int \<Rightarrow> string" where
  "Itoa i = (if i < 0 then CHR ''-'' # nat_digits (nat (- i)) else nat_digits (nat i))"

datatype signal = SIGTERM | SIGKILL

text \<open>
  What the supervisor asks of its environment, and the lines of its own log that
  the claims count:
  \<^item> \<open>CreateLog name f\<close>: \<^verbatim>\<open>gpclogging.GetLogFileForProcess(name)\<close> returned
    the new file \<open>f\<close>; \<open>CreateLogFailed name\<close>: it returned an error;
  \<open>CloseFile f\<close>: \<^verbatim>\<open>f.Close()\<close>;
  \<^item> \<open>StartCmd path args\<close>: \<^verbatim>\<open>cmd.Start()\<close>, and \<open>RunCmd path args\<close>:
    \<^verbatim>\<open>cmd.Run()\<close>, on a command with that path and those arguments;
  \<^item> \<open>OpenProcess p\<close>: the liveness probe of \<^verbatim>\<open>checkProcessRunning\<close>;
  \<^item> \<open>ReleaseProcess p\<close>, \<open>SignalProcess s p\<close>: \<^verbatim>\<open>Process.Release()\<close>
    and \<^verbatim>\<open>Process.Signal(s)\<close> on the process with that \<^verbatim>\<open>Pid\<close>;
  \<^item> \<open>InfoLaunch name\<close>, \<open>InfoLaunchWait name\<close>, \<open>WarnExited name p\<close>,
    \<open>InfoRestart name k\<close>, \<open>ErrorMaxRestarts name\<close>, \<open>ErrorNotKilled name\<close>:
    the lines written by \<^verbatim>\<open>gpclogging.Info\<close>, \<^verbatim>\<open>Warn\<close> and
    \<^verbatim>\<open>Error\<close> when a launcher is entered, an exit is detected, a restart is
    attempted, the restart budget is used up and a kill has failed.
\<close>

datatype os_event =
    CreateLog string os_File
  | CreateLogFailed string
  | CloseFile os_File
  | StartCmd string "string list"
  | RunCmd string "string list"
  | OpenProcess "32 word"
  | ReleaseProcess int
  | SignalProcess signal int
  | InfoLaunch string
  | InfoLaunchWait string
  | WarnExited string int
  | InfoRestart string "32 word"
  | ErrorMaxRestarts string
  | ErrorNotKilled string

text \<open>A Go \<^verbatim>\<open>error\<close> value is \<open>None\<close> for \<^verbatim>\<open>nil\<close>. The manager
  tells \<^verbatim>\<open>*exec.ExitError\<close> from every other error.\<close>

datatype go_error = ExitError int | OtherError

type_synonym err = "go_error option"

text \<open>The one run-time panic of the manager: a method called through a nil pointer.\<close>

datatype panic = NilPointerDereference

section \<open>The terminator\<close>

text \<open>
  The answers of the environment to the four requests of \<^verbatim>\<open>killProcess\<close>.
\<close>

record kill_env =
  release_result :: err
  sigterm_result :: err
  sigkill_result :: err
  taskkill_result :: err

text \<open>
  \<^verbatim>\<open>killProcess(proc *exec.Cmd) error\<close>. The results of \<^verbatim>\<open>Release\<close> and of
  the two \<^verbatim>\<open>Signal\<close> calls are dropped by the source; \<^verbatim>\<open>proc.Process\<close> is
  dereferenced without a check, so a nil command or a command that never started
  panics before any request is made. What the requests achieve is the environment's
  business (on Windows a signal sent after \<^verbatim>\<open>Release\<close> fails at once); the
  model records that they are made, and in which order.
\<close>

definition killProcess :: "kill_env \<Rightarrow> Cmd option \<Rightarrow> os_event list \<times> (panic + err)" where
  "killProcess env proc =
     (case proc of
        None \<Rightarrow> ([], Inl NilPointerDereference)
      | Some c \<Rightarrow>
         (case Process c of
            None \<Rightarrow> ([], Inl NilPointerDereference)
          | Some p \<Rightarrow>
             (let _ = release_result env;
                  _ = sigterm_result env;
                  _ = sigkill_result env;
                  kill = (exec_Command ''taskkill'')
                           \<lparr>Args := [''taskkill'', ''/T'', ''/F'', ''/PID'', Itoa (Pid p)]\<rparr>;
                  err = taskkill_result env
              in ([ReleaseProcess (Pid p), SignalProcess SIGTERM (Pid p),
                   SignalProcess SIGKILL (Pid p), RunCmd (cmdPath kill) (Args kill)],
                  Inr err))))"

text \<open>The requests of a trace that ask for a process to end, in the order made.\<close>

fun is_termination_request :: "os_event \<Rightarrow> bool" where
  "is_termination_request (SignalProcess s p) = True"
| "is_termination_request (RunCmd path args) = (path = ''taskkill'')"
| "is_termination_request e = False"

section \<open>The launchers\<close>

text \<open>
  What the environment answers to one launch: whether the log file could be created,
  whether the operating system started the process (and under which id), and, for a
  launch that waits, how the started process ended: by itself with an exit status
  before the deadline, or killed when the deadline of the context expired.
\<close>

datatype start_result = StartError | Started int

datatype wait_result = ExitedBefore int | KilledAtDeadline

record launch_env =
  create_ok :: bool
  start_result :: start_result
  wait_result :: wait_result

text \<open>
  \<^verbatim>\<open>cmd.Start()\<close> of os/exec: \<^verbatim>\<open>Process\<close> is set when the start succeeds
  and stays nil when it fails.
\<close>

definition cmd_Start :: "start_result \<Rightarrow> Cmd \<Rightarrow> err \<times> Cmd" where
  "cmd_Start res c =
     (case res of
        StartError \<Rightarrow> (Some OtherError, c)
      | Started p \<Rightarrow> (None, c\<lparr>Process := Some \<lparr>Pid = p\<rparr>\<rparr>))"

text \<open>
  \<^verbatim>\<open>cmd.Run()\<close> of os/exec is \<^verbatim>\<open>Start\<close> followed by \<^verbatim>\<open>Wait\<close>. As
  os/exec documents it, the error is nil when the command ran and exited with status
  zero, and an \<^verbatim>\<open>*exec.ExitError\<close> when it started but did not complete
  successfully: a non-zero exit status of its own, or the kill at the deadline of the
  context (a killed process has status 1 on Windows). An error of the start is
  returned as it is.
\<close>

definition cmd_Run :: "start_result \<Rightarrow> wait_result \<Rightarrow> Cmd \<Rightarrow> err \<times> Cmd" where
  "cmd_Run sres wres c =
     (case cmd_Start sres c of
        (Some e, c') \<Rightarrow> (Some e, c')
      | (None, c') \<Rightarrow>
         (case wres of
            ExitedBefore status \<Rightarrow> (if status = 0 then None else Some (ExitError status), c')
          | KilledAtDeadline \<Rightarrow> (Some (ExitError 1), c')))"

text \<open>\<^verbatim>\<open>Process.Release()\<close> called through the field \<^verbatim>\<open>Process\<close> of a
  command: a nil pointer there panics.\<close>

definition Process_Release :: "Process option \<Rightarrow> os_event list \<times> panic option" where
  "Process_Release proc =
     (case proc of
        None \<Rightarrow> ([], Some NilPointerDereference)
      | Some p \<Rightarrow> ([ReleaseProcess (Pid p)], None))"

text \<open>
  \<^verbatim>\<open>doProcessSettings(proc)\<close>: standard input is nil; when the log file of the
  process could be created, it becomes standard output and standard error and is
  stored in \<^verbatim>\<open>procLog\<close>, which is left as it was otherwise; the hide-window
  flag is copied. \<open>fresh\<close> is the file that \<^verbatim>\<open>os.Create\<close> returns if it
  succeeds.
\<close>

definition doProcessSettings ::
  "bool \<Rightarrow> os_File \<Rightarrow> GPCProcRuntimeData \<Rightarrow> os_event list \<times> GPCProcRuntimeData \<times> panic option" where
  "doProcessSettings created fresh proc =
     (case procCmd proc of
        None \<Rightarrow> ([], proc, Some NilPointerDereference)
      | Some c \<Rightarrow>
         (let c1 = c\<lparr>Stdin := None\<rparr>;
              hide = Some (HideWindow (procConfig proc))
          in if created
             then ([CreateLog (Name (procConfig proc)) fresh],
                   proc\<lparr>procCmd := Some (c1\<lparr>Stderr := Some fresh, Stdout := Some fresh,
                                             SysProcAttr := hide\<rparr>),
                        procLog := Some fresh\<rparr>,
                   None)
             else ([CreateLogFailed (Name (procConfig proc))],
                   proc\<lparr>procCmd := Some (c1\<lparr>SysProcAttr := hide\<rparr>)\<rparr>,
                   None)))"

text \<open>
  The body of \<^verbatim>\<open>launchProcess\<close> on the record found under the name: the
  events it causes, the record as it leaves it, and the panic that ends it, if any.
  \<^verbatim>\<open>procCmd.Process.Release()\<close> is the last statement, after both branches.
\<close>

definition launchProcess_record ::
  "launch_env \<Rightarrow> os_File \<Rightarrow> GPCProcRuntimeData \<Rightarrow> os_event list \<times> GPCProcRuntimeData \<times> panic option" where
  "launchProcess_record env fresh rd =
     (case doProcessSettings (create_ok env) fresh
             (rd\<lparr>procCmd := Some (exec_Command (Path (procConfig rd)))\<rparr>) of
        (evs, rd1, Some p) \<Rightarrow> (evs, rd1, Some p)
      | (evs, rd1, None) \<Rightarrow>
         (case procCmd rd1 of
            None \<Rightarrow> (evs, rd1, Some NilPointerDereference)
          | Some c \<Rightarrow>
             (case cmd_Start (start_result env) c of
                (Some e, c') \<Rightarrow>
                  (let rd2 = rd1\<lparr>procCmd := Some c',
                                  procStatus := (procStatus rd1)\<lparr>error := True\<rparr>\<rparr>;
                       (revs, p) = Process_Release (Process c')
                   in (evs @ [StartCmd (cmdPath c) (Args c)] @ revs, rd2, p))
              | (None, c') \<Rightarrow>
                  (case Process c' of
                     None \<Rightarrow> (evs @ [StartCmd (cmdPath c) (Args c)],
                              rd1\<lparr>procCmd := Some c'\<rparr>, Some NilPointerDereference)
                   | Some pr \<Rightarrow>
                      (let rd2 = rd1\<lparr>procCmd := Some c',
                                      procStatus := (procStatus rd1)\<lparr>pid := Pid pr,
                                                                      active := True\<rparr>\<rparr>;
                           (revs, p) = Process_Release (Process c')
                       in (evs @ [StartCmd (cmdPath c) (Args c)] @ revs, rd2, p))))))"

text \<open>
  \<^verbatim>\<open>time.ParseDuration\<close> of the text made by \<^verbatim>\<open>fmt.Sprintf("%ds", t)\<close>:
  the duration in nanoseconds, or an error when it does not fit 63 bits.
\<close>

definition ParseDuration_seconds :: "32 word \<Rightarrow> nat option" where
  "ParseDuration_seconds t =
     (if unat t * 1000000000 < 2 ^ 63 then Some (unat t * 1000000000) else None)"

text \<open>
  The body of \<^verbatim>\<open>launchProcessAndWait\<close> on the record found under the name;
  its first line of log reads the record. \<^verbatim>\<open>active\<close> is set right after
  \<^verbatim>\<open>Run\<close> returns, whatever it returned; \<^verbatim>\<open>pid\<close> is not written.
\<close>

definition launchProcessAndWait_record ::
  "launch_env \<Rightarrow> os_File \<Rightarrow> string \<Rightarrow> GPCProcRuntimeData
     \<Rightarrow> os_event list \<times> GPCProcRuntimeData \<times> panic option" where
  "launchProcessAndWait_record env fresh procName rd =
     (case ParseDuration_seconds (WaitForExitTimeoutS (procConfig rd)) of
        None \<Rightarrow> ([InfoLaunchWait procName],
                 rd\<lparr>procStatus := (procStatus rd)\<lparr>error := True\<rparr>\<rparr>, None)
      | Some timeoutDur \<Rightarrow>
         (case doProcessSettings (create_ok env) fresh
                 (rd\<lparr>procCmd := Some (exec_CommandContext timeoutDur (Path (procConfig rd)))\<rparr>) of
            (evs, rd1, Some p) \<Rightarrow> (InfoLaunchWait procName # evs, rd1, Some p)
          | (evs, rd1, None) \<Rightarrow>
             (case procCmd rd1 of
                None \<Rightarrow> (InfoLaunchWait procName # evs, rd1, Some NilPointerDereference)
              | Some c \<Rightarrow>
                 (case cmd_Run (start_result env) (wait_result env) c of
                    (err, c') \<Rightarrow>
                      (let rd2 = rd1\<lparr>procCmd := Some c',
                                      procStatus := (procStatus rd1)\<lparr>active := True\<rparr>\<rparr>;
                           st = procStatus rd2
                       in (InfoLaunchWait procName # evs @ [RunCmd (cmdPath c) (Args c)],
                           (case err of
                              Some (ExitError status) \<Rightarrow>
                                rd2\<lparr>procStatus := st\<lparr>timeout := True, done_flag := True\<rparr>\<rparr>
                            | Some OtherError \<Rightarrow> rd2\<lparr>procStatus := st\<lparr>error := True\<rparr>\<rparr>
                            | None \<Rightarrow> rd2\<lparr>procStatus := st\<lparr>done_flag := True\<rparr>\<rparr>),
                           None))))))"

section \<open>The supervisor as a whole\<close>

text \<open>
  The goroutines that were started with \<^verbatim>\<open>go func\<close> and have not run yet: the
  first launch of a process, with or without waiting, and a restart spawned by the
  monitor.
\<close>

datatype task = LaunchNoWait string | LaunchAndWait string | Restart string

text \<open>
  Where the goroutine of \<^verbatim>\<open>monitorProcesses\<close> stands: at the guard of its outer
  loop, inside the scan over the registry with the names still to visit, or past the
  loop.
\<close>

datatype monitor_pc = MonGuard | MonScan "string list" | MonLeft

text \<open>
  The global variables \<^verbatim>\<open>gProcRuntimeData\<close> and \<^verbatim>\<open>gStopMon\<close>, the
  goroutines waiting to run, the monitor, everything asked of the environment so far,
  and the panic that has ended the program, if any. The registry is a list of pairs
  with distinct names; \<^verbatim>\<open>range\<close> visits it in some order, here the order of the
  list.
\<close>

record world =
  gProcRuntimeData :: "(string \<times> GPCProcRuntimeData) list"
  gStopMon :: bool
  goroutines :: "task list"
  monitor :: monitor_pc
  os_trace :: "os_event list"
  panicked :: "panic option"

text \<open>The number of the file that \<^verbatim>\<open>os.Create\<close> returns next grows with the
  trace, so no earlier event names it.\<close>

definition fresh_file :: "world \<Rightarrow> os_File" where
  "fresh_file w = length (os_trace w)"

text \<open>
  Runs the body of a function of the manager on the record
  \<^verbatim>\<open>gProcRuntimeData[procName]\<close> and stores what it leaves. A name that is not in
  the map gives a nil record, which the first field access dereferences.
\<close>

definition on_record ::
  "(GPCProcRuntimeData \<Rightarrow> os_event list \<times> GPCProcRuntimeData \<times> panic option)
     \<Rightarrow> string \<Rightarrow> world \<Rightarrow> world" where
  "on_record body procName w =
     (case map_of (gProcRuntimeData w) procName of
        None \<Rightarrow> w\<lparr>panicked := Some NilPointerDereference\<rparr>
      | Some rd \<Rightarrow>
         (case body rd of
            (evs, rd', p) \<Rightarrow>
              w\<lparr>gProcRuntimeData := AList.update procName rd' (gProcRuntimeData w),
                os_trace := os_trace w @ evs,
                panicked := p\<rparr>))"

text \<open>\<^verbatim>\<open>launchProcess(procName)\<close> writes its line of log before it touches the
  map.\<close>

definition launchProcess :: "launch_env \<Rightarrow> string \<Rightarrow> world \<Rightarrow> world" where
  "launchProcess env procName w =
     on_record (launchProcess_record env (Suc (fresh_file w))) procName
       (w\<lparr>os_trace := os_trace w @ [InfoLaunch procName]\<rparr>)"

definition launchProcessAndWait :: "launch_env \<Rightarrow> string \<Rightarrow> world \<Rightarrow> world" where
  "launchProcessAndWait env procName w =
     on_record (launchProcessAndWait_record env (Suc (fresh_file w)) procName) procName w"

subsection \<open>The monitor\<close>

text \<open>
  \<^verbatim>\<open>checkProcessRunning(pid)\<close>: \<^verbatim>\<open>syscall.OpenProcess\<close> on
  \<^verbatim>\<open>uint32(pid)\<close>; an error means that the process is gone. \<open>opens\<close> is the
  answer of the system.
\<close>

definition checkProcessRunning :: "bool \<Rightarrow> int \<Rightarrow> os_event list \<times> err" where
  "checkProcessRunning opens p =
     ([OpenProcess (word_of_int p)], if opens then None else Some OtherError)"

definition close_log :: "os_File option \<Rightarrow> os_event list" where
  "close_log l = (case l of None \<Rightarrow> [] | Some f \<Rightarrow> [CloseFile f])"

text \<open>
  The body of the inner loop of \<^verbatim>\<open>monitorProcesses\<close> for one record: the
  events, the record as it is left, and the goroutine spawned for a restart, if any.
  The log file is closed when \<^verbatim>\<open>procLog\<close> is not nil; \<^verbatim>\<open>procLog\<close>
  itself is not written.
\<close>

definition monitor_record ::
  "bool \<Rightarrow> string \<Rightarrow> GPCProcRuntimeData \<Rightarrow> os_event list \<times> GPCProcRuntimeData \<times> task list" where
  "monitor_record opens procName runtimeData =
     (if WaitForExitTimeoutS (procConfig runtimeData) < 1 \<and> procCmd runtimeData \<noteq> None
         \<and> active (procStatus runtimeData)
      then
        (case checkProcessRunning opens (pid (procStatus runtimeData)) of
           (evs, None) \<Rightarrow> (evs, runtimeData, [])
         | (evs, Some e) \<Rightarrow>
            (let rd1 = runtimeData\<lparr>procStatus := (procStatus runtimeData)\<lparr>active := False\<rparr>\<rparr>;
                 evs1 = evs @ [WarnExited procName (pid (procStatus runtimeData))]
                          @ close_log (procLog runtimeData)
             in if 0 < MaxRestarts (procConfig runtimeData)
                then
                  if restartCount (procStatus runtimeData) < MaxRestarts (procConfig runtimeData)
                  then (evs1, rd1, [Restart procName])
                  else (evs1 @ [ErrorMaxRestarts procName],
                        rd1\<lparr>procStatus := (procStatus rd1)\<lparr>error := True\<rparr>\<rparr>, [])
                else (evs1, rd1, [])))
      else ([], runtimeData, []))"

definition monitor_visit :: "bool \<Rightarrow> string \<Rightarrow> world \<Rightarrow> world" where
  "monitor_visit opens procName w =
     (case map_of (gProcRuntimeData w) procName of
        None \<Rightarrow> w
      | Some runtimeData \<Rightarrow>
         (case monitor_record opens procName runtimeData of
            (evs, rd', spawned) \<Rightarrow>
              w\<lparr>gProcRuntimeData := AList.update procName rd' (gProcRuntimeData w),
                os_trace := os_trace w @ evs,
                goroutines := goroutines w @ spawned\<rparr>))"

text \<open>
  One step of the goroutine that runs \<^verbatim>\<open>monitorProcesses\<close>: at the guard it
  reads \<^verbatim>\<open>gStopMon\<close> and enters the scan or leaves the loop; in the scan it
  handles the next record; after the last record it sleeps and is back at the guard.
\<close>

definition monitor_step :: "bool \<Rightarrow> world \<Rightarrow> world" where
  "monitor_step opens w =
     (case monitor w of
        MonLeft \<Rightarrow> w
      | MonGuard \<Rightarrow>
          (if gStopMon w = False
           then w\<lparr>monitor := MonScan (map fst (gProcRuntimeData w))\<rparr>
           else w\<lparr>monitor := MonLeft\<rparr>)
      | MonScan [] \<Rightarrow> w\<lparr>monitor := MonGuard\<rparr>
      | MonScan (procName # rest) \<Rightarrow> (monitor_visit opens procName w)\<lparr>monitor := MonScan rest\<rparr>)"

text \<open>
  The goroutine spawned by the monitor for a restart: it counts the attempt, writes
  the line of the log and calls \<^verbatim>\<open>launchProcess\<close>. It holds the pointer to the
  record, so a name missing from the map cannot occur in it.
\<close>

definition restart_goroutine :: "launch_env \<Rightarrow> string \<Rightarrow> world \<Rightarrow> world" where
  "restart_goroutine env procName w =
     (case map_of (gProcRuntimeData w) procName of
        None \<Rightarrow> w
      | Some runtimeData \<Rightarrow>
         (let rd1 = runtimeData\<lparr>procStatus := (procStatus runtimeData)
                       \<lparr>restartCount := restartCount (procStatus runtimeData) + 1\<rparr>\<rparr>
          in launchProcess env procName
               (w\<lparr>gProcRuntimeData := AList.update procName rd1 (gProcRuntimeData w),
                  os_trace := os_trace w @ [InfoRestart procName (restartCount (procStatus rd1))]\<rparr>)))"

subsection \<open>Shutdown\<close>

text \<open>What the environment answers while \<^verbatim>\<open>ShutdownAll\<close> handles one record:
  whether the probe finds the process, and the results of the kill if one is tried.\<close>

record shutdown_env =
  proc_opens :: bool
  kill_results :: kill_env

text \<open>
  The body of the loop of \<^verbatim>\<open>ShutdownAll\<close> for one record. The probe is made
  for every record, active or not; a process that is found is killed; then
  \<^verbatim>\<open>active\<close> is cleared and the log file is closed when \<^verbatim>\<open>procLog\<close> is
  not nil.
\<close>

definition shutdown_record ::
  "shutdown_env \<Rightarrow> string \<Rightarrow> GPCProcRuntimeData \<Rightarrow> os_event list \<times> GPCProcRuntimeData \<times> panic option" where
  "shutdown_record env procName runtimeData =
     (let rd1 = runtimeData\<lparr>procStatus := (procStatus runtimeData)\<lparr>active := False\<rparr>\<rparr>
      in case checkProcessRunning (proc_opens env) (pid (procStatus runtimeData)) of
           (evs, Some e) \<Rightarrow> (evs @ close_log (procLog runtimeData), rd1, None)
         | (evs, None) \<Rightarrow>
            (case killProcess (kill_results env) (procCmd runtimeData) of
               (kevs, Inl p) \<Rightarrow> (evs @ kevs, runtimeData, Some p)
             | (kevs, Inr None) \<Rightarrow> (evs @ kevs @ close_log (procLog runtimeData), rd1, None)
             | (kevs, Inr (Some errKill)) \<Rightarrow>
                 (evs @ kevs @ [ErrorNotKilled procName] @ close_log (procLog runtimeData),
                  rd1, None)))"

text \<open>One turn of the loop, on the record stored under the name, and the loop over
  the names; a panic ends it.\<close>

definition shutdown_one :: "(string \<Rightarrow> shutdown_env) \<Rightarrow> string \<Rightarrow> world \<Rightarrow> world" where
  "shutdown_one env procName w =
     on_record (shutdown_record (env procName) procName) procName w"

fun shutdown_loop :: "(string \<Rightarrow> shutdown_env) \<Rightarrow> string list \<Rightarrow> world \<Rightarrow> world" where
  "shutdown_loop env [] w = w"
| "shutdown_loop env (procName # rest) w =
     (if panicked (shutdown_one env procName w) = None
      then shutdown_loop env rest (shutdown_one env procName w)
      else shutdown_one env procName w)"

text \<open>\<^verbatim>\<open>ShutdownAll()\<close>: the stop flag is set, then every record of the registry
  is handled. \<open>env\<close> gives the answers of the environment for each name.\<close>

definition ShutdownAll :: "(string \<Rightarrow> shutdown_env) \<Rightarrow> world \<Rightarrow> world" where
  "ShutdownAll env w =
     shutdown_loop env (map fst (gProcRuntimeData w)) (w\<lparr>gStopMon := True\<rparr>)"

subsection \<open>Start-up and runs\<close>

text \<open>
  \<^verbatim>\<open>StartProcessesFromConfig\<close>: a new record for every task of the
  configuration, stored under the name of the task (a later task of the same name
  replaces the earlier one); the stop flag is cleared and the monitor started; one
  goroutine is spawned for each record of the registry, which waits for the start
  delay and calls the launcher chosen by \<^verbatim>\<open>WaitForExitTimeoutS > 0\<close>.
\<close>

definition initial_task :: "string \<times> GPCProcRuntimeData \<Rightarrow> task" where
  "initial_task entry =
     (case entry of (procName, runtimeData) \<Rightarrow>
        if 0 < WaitForExitTimeoutS (procConfig runtimeData)
        then LaunchAndWait procName else LaunchNoWait procName)"

definition build_registry :: "ProcessConfig list \<Rightarrow> (string \<times> GPCProcRuntimeData) list" where
  "build_registry Tasks =
     fold (\<lambda>c reg. AList.update (Name c) (NewProcRuntimeData c) reg) Tasks []"

definition StartProcessesFromConfig :: "ProcessConfig list \<Rightarrow> world" where
  "StartProcessesFromConfig Tasks =
     \<lparr>gProcRuntimeData = build_registry Tasks,
      gStopMon = False,
      goroutines = map initial_task (build_registry Tasks),
      monitor = MonGuard,
      os_trace = [],
      panicked = None\<rparr>"

text \<open>
  What can happen next in a started supervisor: a waiting goroutine runs (the
  \<open>i\<close>-th, to its end, with these answers of the environment), the monitor takes
  one step, or a shutdown is requested and \<^verbatim>\<open>ShutdownAll\<close> runs. After a panic
  the program is gone and nothing happens any more.

  The goroutines interleave in any order, but each of these steps is taken as a
  whole: the body of a launch goroutine, one visit of the monitor to one record and
  one call of \<^verbatim>\<open>ShutdownAll\<close> are not split further. The two mutexes, the wait
  group and the sleeps (start delay, the 100 ms of the monitor) order and delay the
  steps and have no place in the model of their own; the races of the Go program
  on a single field are outside it.
\<close>

datatype event =
    Goroutine nat launch_env
  | Monitor bool
  | ShutdownRequest "string \<Rightarrow> shutdown_env"

fun run_task :: "launch_env \<Rightarrow> task \<Rightarrow> world \<Rightarrow> world" where
  "run_task env (LaunchNoWait procName) w = launchProcess env procName w"
| "run_task env (LaunchAndWait procName) w = launchProcessAndWait env procName w"
| "run_task env (Restart procName) w = restart_goroutine env procName w"

definition step :: "event \<Rightarrow> world \<Rightarrow> world" where
  "step e w =
     (if panicked w \<noteq> None then w
      else case e of
        Goroutine i env \<Rightarrow>
          (if i < length (goroutines w)
           then run_task env (goroutines w ! i)
                  (w\<lparr>goroutines := take i (goroutines w) @ drop (Suc i) (goroutines w)\<rparr>)
           else w)
      | Monitor opens \<Rightarrow> monitor_step opens w
      | ShutdownRequest env \<Rightarrow> ShutdownAll env w)"

fun run :: "event list \<Rightarrow> world \<Rightarrow> world" where
  "run [] w = w"
| "run (e # es) w = run es (step e w)"

subsection \<open>What the claims observe\<close>

text \<open>The status stored under a name, and the id of the process that the launch
  handle of a record refers to (none while there is no command or no started
  process).\<close>

definition proc_status :: "string \<Rightarrow> world \<Rightarrow> ProcStatus option" where
  "proc_status procName w = map_option procStatus (map_of (gProcRuntimeData w) procName)"

definition handle_pid :: "GPCProcRuntimeData \<Rightarrow> int option" where
  "handle_pid rd =
     (case procCmd rd of
        None \<Rightarrow> None
      | Some c \<Rightarrow> (case Process c of None \<Rightarrow> None | Some p \<Rightarrow> Some (Pid p)))"

text \<open>How often a file was closed in a trace.\<close>

definition closes :: "os_File \<Rightarrow> os_event list \<Rightarrow> nat" where
  "closes f tr = length (filter (\<lambda>e. e = CloseFile f) tr)"

text \<open>The answers of a well-behaved environment: the log file is created, the process
  starts under the given id and, where the launcher waits, exits with status zero;
  and the answers when the start fails.\<close>

definition starts :: "int \<Rightarrow> launch_env" where
  "starts p = \<lparr>create_ok = True, start_result = Started p, wait_result = ExitedBefore 0\<rparr>"

definition start_fails :: launch_env where
  "start_fails = \<lparr>create_ok = True, start_result = StartError, wait_result = ExitedBefore 0\<rparr>"

definition all_nil :: kill_env where
  "all_nil = \<lparr>release_result = None, sigterm_result = None, sigkill_result = None,
               taskkill_result = None\<rparr>"

text \<open>The three requests by which \<^verbatim>\<open>killProcess\<close> asks for the end of the
  process with a given id, and the requests expected of one pass of
  \<^verbatim>\<open>ShutdownAll\<close> over the names: those of every record whose process the probe
  finds.\<close>

definition kill_requests :: "int \<Rightarrow> os_event list" where
  "kill_requests p =
     [SignalProcess SIGTERM p, SignalProcess SIGKILL p,
      RunCmd ''taskkill'' [''taskkill'', ''/T'', ''/F'', ''/PID'', Itoa p]]"

definition expected_kills ::
  "(string \<Rightarrow> shutdown_env) \<Rightarrow> (string \<times> GPCProcRuntimeData) list \<Rightarrow> string list
     \<Rightarrow> os_event list" where
  "expected_kills env reg names =
     concat (map (\<lambda>procName.
        case map_of reg procName of
          None \<Rightarrow> []
        | Some rd \<Rightarrow>
           (if proc_opens (env procName)
            then (case handle_pid rd of None \<Rightarrow> [] | Some p \<Rightarrow> kill_requests p)
            else [])) names)"

text \<open>A record with \<^verbatim>\<open>active\<close> cleared.\<close>

definition deactivated :: "GPCProcRuntimeData \<Rightarrow> GPCProcRuntimeData" where
  "deactivated rd = rd\<lparr>procStatus := (procStatus rd)\<lparr>active := False\<rparr>\<rparr>"

text \<open>Two environments of a shutdown: the probe finds no process at all; the probe
  finds every process and \<^verbatim>\<open>taskkill\<close> fails.\<close>

definition none_found :: "string \<Rightarrow> shutdown_env" where
  "none_found procName = \<lparr>proc_opens = False, kill_results = all_nil\<rparr>"

definition still_found :: "string \<Rightarrow> shutdown_env" where
  "still_found procName =
     \<lparr>proc_opens = True, kill_results = all_nil\<lparr>taskkill_result := Some (ExitError 1)\<rparr>\<rparr>"

subsection \<open>The life of a record\<close>

text \<open>The process a goroutine belongs to, and the goroutines of a process among
  those waiting to run.\<close>

fun task_name :: "task \<Rightarrow> string" where
  "task_name (LaunchNoWait procName) = procName"
| "task_name (LaunchAndWait procName) = procName"
| "task_name (Restart procName) = procName"

definition pending :: "string \<Rightarrow> task list \<Rightarrow> task list" where
  "pending procName gs = filter (\<lambda>t. task_name t = procName) gs"

text \<open>Three lines of the log are counted per process: a launch without waiting is
  entered, an exit is detected by the monitor, a restart is attempted.\<close>

fun is_launch :: "string \<Rightarrow> os_event \<Rightarrow> bool" where
  "is_launch procName (InfoLaunch name) = (name = procName)"
| "is_launch procName e = False"

fun is_exit :: "string \<Rightarrow> os_event \<Rightarrow> bool" where
  "is_exit procName (WarnExited name p) = (name = procName)"
| "is_exit procName e = False"

fun is_restart :: "string \<Rightarrow> os_event \<Rightarrow> bool" where
  "is_restart procName (InfoRestart name k) = (name = procName)"
| "is_restart procName e = False"

definition launches :: "string \<Rightarrow> os_event list \<Rightarrow> nat" where
  "launches procName tr = length (filter (is_launch procName) tr)"

definition exits :: "string \<Rightarrow> os_event list \<Rightarrow> nat" where
  "exits procName tr = length (filter (is_exit procName) tr)"

definition restarts :: "string \<Rightarrow> os_event list \<Rightarrow> nat" where
  "restarts procName tr = length (filter (is_restart procName) tr)"

text \<open>
  Where a record stands in its life, in terms of its fields, the goroutines waiting
  for it and the three counts. A record that waits for its process is either still
  to be launched or past its launch, and is never restarted. For a record that does
  not wait, the number of restarts in the log is its \<^verbatim>\<open>restartCount\<close>, and it is
  in one of four states:
  \<^item> the first launch is still to come, and \<^verbatim>\<open>pid\<close> is still 0;
  \<^item> it was launched once more than it was restarted, every earlier exit was
    answered by a restart, no goroutine is waiting, and if it is active its
    \<^verbatim>\<open>pid\<close> is the id of the process of its launch handle;
  \<^item> an exit was detected and the restart for it is waiting to run;
  \<^item> an exit was detected and no restart follows, the budget being used up
    (or zero).
\<close>

definition lifecycle ::
  "string \<Rightarrow> GPCProcRuntimeData \<Rightarrow> task list \<Rightarrow> nat \<Rightarrow> nat \<Rightarrow> nat \<Rightarrow> bool" where
  "lifecycle n rd pend L E R =
     (let st = procStatus rd;
          rc = unat (restartCount st);
          N = unat (MaxRestarts (procConfig rd))
      in if 0 < WaitForExitTimeoutS (procConfig rd)
         then rc = 0 \<and> (pend = [] \<or> pend = [LaunchAndWait n] \<and> \<not> active st)
         else R = rc \<and>
           (pend = [LaunchNoWait n] \<and> \<not> active st \<and> \<not> error st \<and> pid st = 0
                \<and> L = 0 \<and> E = 0 \<and> rc = 0
            \<or> pend = [] \<and> L = rc + 1 \<and> E = rc \<and> rc \<le> N
                \<and> (active st \<longrightarrow> \<not> error st \<and> handle_pid rd = Some (pid st))
            \<or> pend = [Restart n] \<and> \<not> active st \<and> \<not> error st \<and> L = rc + 1 \<and> E = rc + 1 \<and> rc < N
            \<or> pend = [] \<and> \<not> active st \<and> L = N + 1 \<and> E = N + 1 \<and> rc = N \<and> (0 < N \<longrightarrow> error st)))"

text \<open>The record stored under a name, if there is one, with the goroutines and
  the counts of that name.\<close>

definition record_inv :: "string \<Rightarrow> world \<Rightarrow> bool" where
  "record_inv n w =
     (case map_of (gProcRuntimeData w) n of
        None \<Rightarrow> True
      | Some rd \<Rightarrow>
          lifecycle n rd (pending n (goroutines w)) (launches n (os_trace w))
            (exits n (os_trace w)) (restarts n (os_trace w)))"

text \<open>The configuration stored under a name, and the id of the process of the launch
  handle stored under a name.\<close>

definition config_of :: "string \<Rightarrow> world \<Rightarrow> ProcessConfig option" where
  "config_of n w = map_option procConfig (map_of (gProcRuntimeData w) n)"

definition launched_pid :: "string \<Rightarrow> world \<Rightarrow> int option" where
  "launched_pid procName w =
     (case map_of (gProcRuntimeData w) procName of None \<Rightarrow> None | Some rd \<Rightarrow> handle_pid rd)"

text \<open>
  A run of a supervisor with a single task whose process exits after every launch:
  the first launch as process 100; then \<open>k\<close> times a scan of the monitor that finds
  the process gone (the monitor passes its guard, visits the record, sleeps) followed
  by the restart, as process 101, 102, ...; then one more scan that finds the process
  gone.
\<close>

fun restart_cycles :: "nat \<Rightarrow> event list" where
  "restart_cycles 0 = []"
| "restart_cycles (Suc k) =
     restart_cycles k @ [Monitor True, Monitor False, Monitor True,
                         Goroutine 0 (starts (101 + int k))]"

definition exits_every_launch :: "nat \<Rightarrow> event list" where
  "exits_every_launch k =
     [Goroutine 0 (starts 100)] @ restart_cycles k @ [Monitor True, Monitor False]"

text \<open>The supervisor of a single task between two scans of the monitor, the process
  running after \<open>j\<close> detected exits and \<open>j\<close> restarts.\<close>

definition running_alone :: "ProcessConfig \<Rightarrow> nat \<Rightarrow> world \<Rightarrow> bool" where
  "running_alone cfg j w \<longleftrightarrow>
     gStopMon w = False \<and> goroutines w = [] \<and> monitor w = MonGuard \<and> panicked w = None
     \<and> exits (Name cfg) (os_trace w) = j
     \<and> (case map_of (gProcRuntimeData w) (Name cfg) of
           None \<Rightarrow> False
         | Some rd \<Rightarrow>
             gProcRuntimeData w = [(Name cfg, rd)] \<and> procConfig rd = cfg
             \<and> procCmd rd \<noteq> None \<and> active (procStatus rd)
             \<and> unat (restartCount (procStatus rd)) = j)"

section \<open>Properties\<close>

subsection \<open>Unfolding the model\<close>

lemmas launch_defs = launchProcess_def launchProcess_record_def launchProcessAndWait_def
  launchProcessAndWait_record_def on_record_def doProcessSettings_def cmd_Start_def cmd_Run_def
  Process_Release_def exec_Command_def exec_CommandContext_def fresh_file_def Let_def

lemmas start_defs =
  StartProcessesFromConfig_def build_registry_def NewProcRuntimeData_def initial_task_def

lemmas monitor_defs = monitor_step_def monitor_visit_def monitor_record_def
  checkProcessRunning_def close_log_def restart_goroutine_def

lemmas shutdown_defs = ShutdownAll_def shutdown_one_def shutdown_record_def killProcess_def
  checkProcessRunning_def close_log_def

lemmas env_defs = starts_def start_fails_def all_nil_def none_found_def still_found_def

lemma Itoa_4242: "Itoa 4242 = ''4242''"
  by code_simp

text \<open>A number of seconds that fits 32 bits is always a valid duration.\<close>

lemma ParseDuration_seconds_total: "ParseDuration_seconds t = Some (unat t * 1000000000)"
proof -
  have "unat t < 2 ^ 32"
    using unsigned_less [of t] by simp
  then have "unat t * 1000000000 < 2 ^ 63"
    by simp
  then show ?thesis
    by (simp add: ParseDuration_seconds_def)
qed

subsection \<open>The terminator\<close>

text \<open>
  C9. Called on a launch handle (a command whose process was started), the terminator
  asks for SIGTERM, then for SIGKILL, then runs \<^verbatim>\<open>taskkill /T /F /PID <pid>\<close>, in
  that order; it does not panic, and what it returns is the result of the
  \<^verbatim>\<open>taskkill\<close> run alone, whatever \<^verbatim>\<open>Release\<close> and the two signals
  answered.
\<close>

theorem killProcess_escalates:
  assumes "Process c = Some p"
  shows "filter is_termination_request (fst (killProcess env (Some c))) =
           [SignalProcess SIGTERM (Pid p), SignalProcess SIGKILL (Pid p),
            RunCmd ''taskkill'' [''taskkill'', ''/T'', ''/F'', ''/PID'', Itoa (Pid p)]]
         \<and> snd (killProcess env (Some c)) = Inr (taskkill_result env)
         \<and> snd (killProcess (env\<lparr>release_result := r1, sigterm_result := r2,
                                    sigkill_result := r3\<rparr>) (Some c))
             = snd (killProcess env (Some c))"
  using assms by (simp add: killProcess_def exec_Command_def)

theorem killProcess_escalates_witness:
  "filter is_termination_request
     (fst (killProcess \<lparr>release_result = None, sigterm_result = Some OtherError,
                        sigkill_result = Some OtherError, taskkill_result = None\<rparr>
             (Some ((exec_Command ''notepad.exe'')\<lparr>Process := Some \<lparr>Pid = 4242\<rparr>\<rparr>)))) =
     [SignalProcess SIGTERM 4242, SignalProcess SIGKILL 4242,
      RunCmd ''taskkill'' [''taskkill'', ''/T'', ''/F'', ''/PID'', ''4242'']]
   \<and> snd (killProcess \<lparr>release_result = None, sigterm_result = Some OtherError,
                        sigkill_result = Some OtherError, taskkill_result = None\<rparr>
             (Some ((exec_Command ''notepad.exe'')\<lparr>Process := Some \<lparr>Pid = 4242\<rparr>\<rparr>))) = Inr None"
proof -
  have p: "Process ((exec_Command ''notepad.exe'')\<lparr>Process := Some \<lparr>Pid = 4242\<rparr>\<rparr>)
             = Some \<lparr>Pid = 4242\<rparr>"
    by simp
  note d = Itoa_4242
  show ?thesis
    using killProcess_escalates [OF p, where env = "\<lparr>release_result = None,
      sigterm_result = Some OtherError, sigkill_result = Some OtherError,
      taskkill_result = None\<rparr>"] d
    by simp
qed

subsection \<open>The launchers\<close>

text \<open>
  C10. The claim is that the launch handle dereferenced for
  \<^verbatim>\<open>Process.Release()\<close> after the start attempt is never nil. In
  \<^verbatim>\<open>launchProcess\<close> the call stands after the \<^verbatim>\<open>if\<close>, so it is also
  reached when \<^verbatim>\<open>Start\<close> has failed and \<^verbatim>\<open>procCmd.Process\<close> is still
  nil: launching the default task Notepad when the start fails ends in a nil pointer
  dereference.
\<close>

theorem launchProcess_start_failure_panics:
  "panicked (launchProcess start_fails ''Notepad''
               (StartProcessesFromConfig [default_p1, default_p2]))
     = Some NilPointerDereference"
  by (simp add: launch_defs start_defs env_defs default_p1_def default_p2_def)

text \<open>
  C8. The claim is that the launch request is built from the path together with the
  configured arguments. Both launchers build the command from the path alone: for
  the default task Notepad, configured with the arguments \<^verbatim>\<open>notepad.exe\<close> and
  \<^verbatim>\<open>myfile.txt\<close>, the command that is started (and, for the waiting launcher,
  run) has the single argument \<^verbatim>\<open>notepad.exe\<close>.
\<close>

theorem launchers_drop_StartArgs:
  "StartArgs default_p1 = [''notepad.exe'', ''myfile.txt'']
   \<and> os_trace (launchProcess (starts 4242) ''Notepad'' (StartProcessesFromConfig [default_p1]))
       = [InfoLaunch ''Notepad'', CreateLog ''Notepad'' 1,
          StartCmd ''notepad.exe'' [''notepad.exe''], ReleaseProcess 4242]
   \<and> os_trace (launchProcessAndWait (starts 4242) ''Notepad''
                  (StartProcessesFromConfig [default_p1\<lparr>WaitForExitTimeoutS := 5\<rparr>]))
       = [InfoLaunchWait ''Notepad'', CreateLog ''Notepad'' 1,
          RunCmd ''notepad.exe'' [''notepad.exe'']]"
  by (simp add: launch_defs start_defs env_defs default_p1_def ParseDuration_seconds_total)

text \<open>
  C2. The claim is that \<^verbatim>\<open>timeout\<close> is set exactly when the process was killed
  at the deadline, and that a process which exits by itself, with any status, ends
  with \<^verbatim>\<open>done\<close> set and \<^verbatim>\<open>timeout\<close> clear. The launcher takes every
  \<^verbatim>\<open>*exec.ExitError\<close> for the timeout: a process that exits by itself with
  status 1 before the deadline ends with \<^verbatim>\<open>timeout\<close> set.
\<close>

theorem launchProcessAndWait_exit_status_sets_timeout:
  "proc_status ''Notepad''
     (launchProcessAndWait
        \<lparr>create_ok = True, start_result = Started 4242, wait_result = ExitedBefore 1\<rparr>
        ''Notepad'' (StartProcessesFromConfig [default_p1\<lparr>WaitForExitTimeoutS := 5\<rparr>]))
   = Some \<lparr>pid = 0, active = True, error = False, timeout = True, done_flag = True,
           restartCount = 0\<rparr>"
  by (simp add: proc_status_def launch_defs start_defs default_p1_def
      ParseDuration_seconds_total)

subsection \<open>Log files\<close>

text \<open>
  C3. The claim is that the log file of a record is closed exactly once after the
  exit of its process is observed. The monitor and \<^verbatim>\<open>ShutdownAll\<close> both close
  \<^verbatim>\<open>procLog\<close> when it is not nil, and neither sets it to nil. Paint, the default
  task without restarts, is started as process 4242; the monitor finds it gone and
  closes file 1; the shutdown that follows closes file 1 a second time.
\<close>

theorem log_file_closed_twice:
  "os_trace
     (run [Goroutine 0 (starts 4242), Monitor True, Monitor False,
           ShutdownRequest none_found]
        (StartProcessesFromConfig [default_p2]))
   = [InfoLaunch ''Paint'', CreateLog ''Paint'' 1,
      StartCmd ''mspaint.exe'' [''mspaint.exe''], ReleaseProcess 4242,
      OpenProcess 4242, WarnExited ''Paint'' 4242, CloseFile 1,
      OpenProcess 4242, CloseFile 1]
   \<and> closes 1
       (os_trace
         (run [Goroutine 0 (starts 4242), Monitor True, Monitor False,
               ShutdownRequest none_found]
            (StartProcessesFromConfig [default_p2]))) = 2"
  by (simp add: closes_def step_def launch_defs start_defs monitor_defs shutdown_defs
      env_defs default_p2_def)

subsection \<open>Shutdown\<close>

text \<open>One turn of the loop of \<^verbatim>\<open>ShutdownAll\<close>, case by case.\<close>

lemma shutdown_record_cases:
  "shutdown_record env n rd =
     (if proc_opens env
      then (case handle_pid rd of
              None \<Rightarrow> ([OpenProcess (word_of_int (pid (procStatus rd)))], rd,
                       Some NilPointerDereference)
            | Some p \<Rightarrow>
               ([OpenProcess (word_of_int (pid (procStatus rd))), ReleaseProcess p]
                  @ kill_requests p
                  @ (case taskkill_result (kill_results env) of
                       None \<Rightarrow> [] | Some e \<Rightarrow> [ErrorNotKilled n])
                  @ close_log (procLog rd),
                deactivated rd, None))
      else ([OpenProcess (word_of_int (pid (procStatus rd)))] @ close_log (procLog rd),
            deactivated rd, None))"
  by (cases "taskkill_result (kill_results env)")
     (auto simp: shutdown_record_def killProcess_def checkProcessRunning_def handle_pid_def
      kill_requests_def deactivated_def exec_Command_def Let_def split: option.splits)

lemma filter_close_log [simp]: "filter is_termination_request (close_log l) = []"
  by (simp add: close_log_def split: option.splits)

lemma filter_kill_requests [simp]:
  "filter is_termination_request (kill_requests p) = kill_requests p"
  by (simp add: kill_requests_def)

lemma handle_pid_deactivated [simp]: "handle_pid (deactivated rd) = handle_pid rd"
  by (simp add: handle_pid_def deactivated_def)

lemma active_deactivated [simp]: "\<not> active (procStatus (deactivated rd))"
  by (simp add: deactivated_def)

lemma deactivated_inactive: "\<not> active (procStatus rd) \<Longrightarrow> deactivated rd = rd"
  by (simp add: deactivated_def)

lemma shutdown_one_lookup:
  "panicked (shutdown_one env n w) = None \<Longrightarrow>
   map_of (gProcRuntimeData (shutdown_one env n w)) m =
     (if m = n then map_option deactivated (map_of (gProcRuntimeData w) n)
      else map_of (gProcRuntimeData w) m)"
  by (auto simp: shutdown_one_def on_record_def shutdown_record_cases update_conv'
      split: option.splits if_splits)

lemma shutdown_one_keys:
  "map_of (gProcRuntimeData (shutdown_one env n w)) m = None \<longleftrightarrow>
   map_of (gProcRuntimeData w) m = None"
  by (auto simp: shutdown_one_def on_record_def shutdown_record_cases update_conv'
      split: option.splits if_splits)

lemma shutdown_one_trace:
  "panicked (shutdown_one env n w) = None \<Longrightarrow>
   filter is_termination_request (os_trace (shutdown_one env n w)) =
     filter is_termination_request (os_trace w) @ expected_kills env (gProcRuntimeData w) [n]"
  by (auto simp: shutdown_one_def on_record_def shutdown_record_cases expected_kills_def
      split: option.splits if_splits)

lemma shutdown_one_same:
  assumes "panicked (shutdown_one env n w) = None"
    and "\<And>rd. map_of (gProcRuntimeData w) n = Some rd \<Longrightarrow> \<not> active (procStatus rd)"
  shows "gProcRuntimeData (shutdown_one env n w) = gProcRuntimeData w"
  using assms
  by (auto simp: shutdown_one_def on_record_def shutdown_record_cases deactivated_inactive
      update_triv split: option.splits if_splits)

lemma shutdown_one_safe:
  assumes "map_of (gProcRuntimeData w) n = Some rd"
    and "proc_opens (env n) \<Longrightarrow> handle_pid rd \<noteq> None"
  shows "panicked (shutdown_one env n w) = None"
  using assms
  by (auto simp: shutdown_one_def on_record_def shutdown_record_cases)

lemma shutdown_one_found:
  assumes "panicked (shutdown_one env n w) = None" and "proc_opens (env n)"
    and "map_of (gProcRuntimeData w) n = Some rd"
  shows "handle_pid rd \<noteq> None"
  using assms
  by (cases "handle_pid rd") (simp_all add: shutdown_one_def on_record_def shutdown_record_cases)

lemma shutdown_loop_panic_free:
  "panicked (shutdown_loop env (n # ns) w) = None \<Longrightarrow> panicked (shutdown_one env n w) = None"
  by (simp split: if_splits)

lemma expected_kills_Cons:
  "expected_kills env reg (n # ns) = expected_kills env reg [n] @ expected_kills env reg ns"
  by (simp add: expected_kills_def)

lemma expected_kills_cong:
  "(\<And>m. map_option handle_pid (map_of reg' m) = map_option handle_pid (map_of reg m))
   \<Longrightarrow> expected_kills env reg' ns = expected_kills env reg ns"
proof (induction ns)
  case Nil
  then show ?case by (simp add: expected_kills_def)
next
  case (Cons n ns)
  have "map_option handle_pid (map_of reg' n) = map_option handle_pid (map_of reg n)"
    using Cons.prems by blast
  then have "expected_kills env reg' [n] = expected_kills env reg [n]"
    by (auto simp: expected_kills_def split: option.splits)
  with Cons show ?case
    by (metis expected_kills_Cons)
qed

lemma shutdown_loop_inactive:
  "panicked (shutdown_loop env ns w) = None \<Longrightarrow>
   map_of (gProcRuntimeData (shutdown_loop env ns w)) m =
     (if m \<in> set ns then map_option deactivated (map_of (gProcRuntimeData w) m)
      else map_of (gProcRuntimeData w) m)"
proof (induction ns arbitrary: w)
  case Nil
  then show ?case by simp
next
  case (Cons n ns)
  from Cons.prems have p1: "panicked (shutdown_one env n w) = None"
    by (rule shutdown_loop_panic_free)
  with Cons.prems have p2: "panicked (shutdown_loop env ns (shutdown_one env n w)) = None"
    by simp
  have "map_of (gProcRuntimeData (shutdown_loop env (n # ns) w)) m =
        map_of (gProcRuntimeData (shutdown_loop env ns (shutdown_one env n w))) m"
    using p1 by simp
  also have "\<dots> = (if m \<in> set ns
                   then map_option deactivated (map_of (gProcRuntimeData (shutdown_one env n w)) m)
                   else map_of (gProcRuntimeData (shutdown_one env n w)) m)"
    by (rule Cons.IH [OF p2])
  also have "\<dots> = (if m \<in> set (n # ns) then map_option deactivated (map_of (gProcRuntimeData w) m)
                   else map_of (gProcRuntimeData w) m)"
    by (cases "map_of (gProcRuntimeData w) n")
       (auto simp: shutdown_one_lookup [OF p1] deactivated_def)
  finally show ?case .
qed

lemma shutdown_loop_trace:
  "panicked (shutdown_loop env ns w) = None \<Longrightarrow>
   filter is_termination_request (os_trace (shutdown_loop env ns w)) =
     filter is_termination_request (os_trace w) @ expected_kills env (gProcRuntimeData w) ns"
proof (induction ns arbitrary: w)
  case Nil
  then show ?case by (simp add: expected_kills_def)
next
  case (Cons n ns)
  from Cons.prems have p1: "panicked (shutdown_one env n w) = None"
    by (rule shutdown_loop_panic_free)
  with Cons.prems have p2: "panicked (shutdown_loop env ns (shutdown_one env n w)) = None"
    by simp
  have same: "expected_kills env (gProcRuntimeData (shutdown_one env n w)) ns
                = expected_kills env (gProcRuntimeData w) ns"
    by (rule expected_kills_cong)
       (auto simp: shutdown_one_lookup [OF p1] option.map_comp comp_def)
  show ?case
    using p1 Cons.IH [OF p2] shutdown_one_trace [OF p1] same
    by (simp add: expected_kills_Cons [of env _ n ns])
qed

lemma shutdown_loop_same:
  assumes "panicked (shutdown_loop env ns w) = None"
    and "\<And>m rd. map_of (gProcRuntimeData w) m = Some rd \<Longrightarrow> \<not> active (procStatus rd)"
  shows "gProcRuntimeData (shutdown_loop env ns w) = gProcRuntimeData w"
  using assms
proof (induction ns arbitrary: w)
  case Nil
  then show ?case by simp
next
  case (Cons n ns)
  from Cons.prems(1) have p1: "panicked (shutdown_one env n w) = None"
    by (rule shutdown_loop_panic_free)
  with Cons.prems(1) have p2: "panicked (shutdown_loop env ns (shutdown_one env n w)) = None"
    by simp
  have s1: "gProcRuntimeData (shutdown_one env n w) = gProcRuntimeData w"
    using p1 Cons.prems(2) by (rule shutdown_one_same)
  have "gProcRuntimeData (shutdown_loop env ns (shutdown_one env n w))
          = gProcRuntimeData (shutdown_one env n w)"
    using p2 Cons.prems(2) by (intro Cons.IH) (simp_all add: s1)
  with p1 s1 show ?case
    by simp
qed

lemma shutdown_loop_found:
  assumes "panicked (shutdown_loop env ns w) = None" and "n \<in> set ns" and "proc_opens (env n)"
    and "map_of (gProcRuntimeData w) n = Some rd"
  shows "handle_pid rd \<noteq> None"
  using assms(1,2,4)
proof (induction ns arbitrary: w rd)
  case Nil
  then show ?case by simp
next
  case (Cons m ns)
  from Cons.prems(1) have p1: "panicked (shutdown_one env m w) = None"
    by (rule shutdown_loop_panic_free)
  with Cons.prems(1) have p2: "panicked (shutdown_loop env ns (shutdown_one env m w)) = None"
    by simp
  show ?case
  proof (cases "n = m")
    case True
    show ?thesis
      using p1 assms(3) Cons.prems(3) unfolding True by (rule shutdown_one_found)
  next
    case False
    with Cons.prems(2) have "n \<in> set ns"
      by simp
    moreover have "map_of (gProcRuntimeData (shutdown_one env m w)) n = Some rd"
      using False Cons.prems(3) by (simp add: shutdown_one_lookup [OF p1])
    ultimately show ?thesis
      using p2 by (intro Cons.IH)
  qed
qed

lemma shutdown_loop_safe:
  assumes "\<And>n rd. n \<in> set ns \<Longrightarrow> proc_opens (env n) \<Longrightarrow>
             map_of (gProcRuntimeData w) n = Some rd \<Longrightarrow> handle_pid rd \<noteq> None"
    and "\<And>n. n \<in> set ns \<Longrightarrow> map_of (gProcRuntimeData w) n \<noteq> None"
    and "panicked w = None"
  shows "panicked (shutdown_loop env ns w) = None"
  using assms
proof (induction ns arbitrary: w)
  case Nil
  then show ?case by simp
next
  case (Cons m ns)
  obtain rd where rd: "map_of (gProcRuntimeData w) m = Some rd"
    using Cons.prems(2) [of m] by auto
  have p1: "panicked (shutdown_one env m w) = None"
    using rd Cons.prems(1) [of m rd] by (intro shutdown_one_safe) simp_all
  have "panicked (shutdown_loop env ns (shutdown_one env m w)) = None"
  proof (rule Cons.IH)
    show "handle_pid rd' \<noteq> None"
      if "n \<in> set ns" "proc_opens (env n)"
        "map_of (gProcRuntimeData (shutdown_one env m w)) n = Some rd'" for n rd'
      using that Cons.prems(1) [of n]
      by (auto simp: shutdown_one_lookup [OF p1] split: if_splits)
    show "map_of (gProcRuntimeData (shutdown_one env m w)) n \<noteq> None" if "n \<in> set ns" for n
      using that Cons.prems(2) [of n] by (simp add: shutdown_one_keys)
    show "panicked (shutdown_one env m w) = None"
      by (rule p1)
  qed
  with p1 show ?case
    by simp
qed

text \<open>
  C4, as the code has it. When a call of \<^verbatim>\<open>ShutdownAll\<close> has completed,
  every record has \<^verbatim>\<open>active\<close> clear. A second call does not look at
  \<^verbatim>\<open>active\<close>: it probes every record again and asks for the end of every
  process that the probe still finds, and of no other. It does not panic when its
  probe finds no process that the probe of the first call did not find, whether the
  processes found are killed or survive again; and when it completes it leaves the
  registry as it was.
\<close>

theorem ShutdownAll_second_call:
  assumes "panicked (ShutdownAll env1 w) = None"
  shows "(\<forall>n rd. map_of (gProcRuntimeData (ShutdownAll env1 w)) n = Some rd
            \<longrightarrow> \<not> active (procStatus rd))
       \<and> ((\<forall>n. proc_opens (env2 n) \<longrightarrow> proc_opens (env1 n))
            \<longrightarrow> panicked (ShutdownAll env2 (ShutdownAll env1 w)) = None)
       \<and> (panicked (ShutdownAll env2 (ShutdownAll env1 w)) = None
            \<longrightarrow> gProcRuntimeData (ShutdownAll env2 (ShutdownAll env1 w))
                  = gProcRuntimeData (ShutdownAll env1 w)
              \<and> filter is_termination_request (os_trace (ShutdownAll env2 (ShutdownAll env1 w)))
                  = filter is_termination_request (os_trace (ShutdownAll env1 w))
                    @ expected_kills env2 (gProcRuntimeData (ShutdownAll env1 w))
                        (map fst (gProcRuntimeData (ShutdownAll env1 w))))"
proof -
  define w1 where "w1 = ShutdownAll env1 w"
  define w1' where "w1' = w1\<lparr>gStopMon := True\<rparr>"
  have p1: "panicked w1 = None"
    using assms by (simp add: w1_def)
  have p0: "panicked (shutdown_loop env1 (map fst (gProcRuntimeData w)) (w\<lparr>gStopMon := True\<rparr>)) = None"
    using assms by (simp add: ShutdownAll_def)
  have inactive: "\<not> active (procStatus rd)" if "map_of (gProcRuntimeData w1) n = Some rd" for n rd
  proof -
    have "map_of (gProcRuntimeData w1) n =
            (if n \<in> set (map fst (gProcRuntimeData w))
             then map_option deactivated (map_of (gProcRuntimeData w) n)
             else map_of (gProcRuntimeData w) n)"
      using shutdown_loop_inactive [OF p0, of n] by (simp add: w1_def ShutdownAll_def)
    with that show ?thesis
      by (auto simp: dom_map_of_conv_image_fst [symmetric] split: if_splits)
  qed
  have w2: "ShutdownAll env2 w1 = shutdown_loop env2 (map fst (gProcRuntimeData w1')) w1'"
    by (simp add: ShutdownAll_def w1'_def)
  have lookup1: "map_of (gProcRuntimeData w1) n = map_option deactivated (map_of (gProcRuntimeData w) n)"
    for n
    using shutdown_loop_inactive [OF p0, of n]
    by (cases "map_of (gProcRuntimeData w) n")
       (auto simp: w1_def ShutdownAll_def dom_map_of_conv_image_fst [symmetric])
  have quiet: "panicked (ShutdownAll env2 w1) = None"
    if sub: "\<forall>n. proc_opens (env2 n) \<longrightarrow> proc_opens (env1 n)"
    unfolding w2
  proof (rule shutdown_loop_safe)
    show "handle_pid rd \<noteq> None"
      if "n \<in> set (map fst (gProcRuntimeData w1'))" and found: "proc_opens (env2 n)"
        and rd: "map_of (gProcRuntimeData w1') n = Some rd" for n rd
    proof -
      from rd obtain rd0 where rd0: "map_of (gProcRuntimeData w) n = Some rd0"
        and eq: "rd = deactivated rd0"
        by (auto simp: w1'_def lookup1)
      from rd0 have key: "n \<in> set (map fst (gProcRuntimeData w))"
        by (simp add: dom_map_of_conv_image_fst [symmetric] domI)
      from sub found have found1: "proc_opens (env1 n)"
        by simp
      from rd0 have rd0': "map_of (gProcRuntimeData (w\<lparr>gStopMon := True\<rparr>)) n = Some rd0"
        by simp
      have "handle_pid rd0 \<noteq> None"
        using p0 key found1 rd0' by (rule shutdown_loop_found)
      with eq show ?thesis
        by simp
    qed
    show "map_of (gProcRuntimeData w1') n \<noteq> None" if "n \<in> set (map fst (gProcRuntimeData w1'))" for n
      using that by (simp add: map_of_eq_None_iff)
    show "panicked w1' = None"
      using p1 by (simp add: w1'_def)
  qed
  have again: "gProcRuntimeData (ShutdownAll env2 w1) = gProcRuntimeData w1
       \<and> filter is_termination_request (os_trace (ShutdownAll env2 w1))
           = filter is_termination_request (os_trace w1)
             @ expected_kills env2 (gProcRuntimeData w1) (map fst (gProcRuntimeData w1))"
    if p2: "panicked (ShutdownAll env2 w1) = None"
  proof -
    from p2 have p2': "panicked (shutdown_loop env2 (map fst (gProcRuntimeData w1')) w1') = None"
      by (simp add: w2)
    have "gProcRuntimeData (shutdown_loop env2 (map fst (gProcRuntimeData w1')) w1')
            = gProcRuntimeData w1'"
      using p2' by (rule shutdown_loop_same) (simp add: w1'_def inactive)
    moreover have "filter is_termination_request
                     (os_trace (shutdown_loop env2 (map fst (gProcRuntimeData w1')) w1'))
            = filter is_termination_request (os_trace w1')
              @ expected_kills env2 (gProcRuntimeData w1') (map fst (gProcRuntimeData w1'))"
      using p2' by (rule shutdown_loop_trace)
    ultimately show ?thesis
      by (simp add: w2) (simp add: w1'_def)
  qed
  from inactive quiet again show ?thesis
    unfolding w1_def by blast
qed

theorem ShutdownAll_second_call_witness:
  "panicked (ShutdownAll still_found
               (launchProcess (starts 4242) ''Paint'' (StartProcessesFromConfig [default_p2]))) = None
   \<and> proc_status ''Paint''
        (ShutdownAll still_found
           (launchProcess (starts 4242) ''Paint'' (StartProcessesFromConfig [default_p2])))
      = Some \<lparr>pid = 4242, active = False, error = False, timeout = False, done_flag = False,
              restartCount = 0\<rparr>
   \<and> panicked (ShutdownAll still_found (ShutdownAll still_found
               (launchProcess (starts 4242) ''Paint'' (StartProcessesFromConfig [default_p2])))) = None
   \<and> panicked (ShutdownAll none_found (ShutdownAll still_found
               (launchProcess (starts 4242) ''Paint'' (StartProcessesFromConfig [default_p2])))) = None
   \<and> filter is_termination_request (os_trace (ShutdownAll none_found (ShutdownAll still_found
               (launchProcess (starts 4242) ''Paint'' (StartProcessesFromConfig [default_p2])))))
      = filter is_termination_request (os_trace (ShutdownAll still_found
               (launchProcess (starts 4242) ''Paint'' (StartProcessesFromConfig [default_p2]))))"
proof -
  have h: "panicked (ShutdownAll still_found
               (launchProcess (starts 4242) ''Paint'' (StartProcessesFromConfig [default_p2]))) = None"
    by (simp add: launch_defs start_defs shutdown_defs env_defs default_p2_def)
  have q: "\<forall>n. proc_opens (none_found n) \<longrightarrow> proc_opens (still_found n)"
    by (simp add: none_found_def)
  have r: "\<forall>n. proc_opens (still_found n) \<longrightarrow> proc_opens (still_found n)"
    by simp
  have e: "expected_kills none_found reg names = []" for reg names
    by (induction names) (simp_all add: expected_kills_def none_found_def split: option.splits)
  have s: "proc_status ''Paint''
        (ShutdownAll still_found
           (launchProcess (starts 4242) ''Paint'' (StartProcessesFromConfig [default_p2])))
      = Some \<lparr>pid = 4242, active = False, error = False, timeout = False, done_flag = False,
              restartCount = 0\<rparr>"
    by (simp add: proc_status_def launch_defs start_defs shutdown_defs env_defs default_p2_def)
  show ?thesis
    using ShutdownAll_second_call [OF h, of none_found] ShutdownAll_second_call [OF h, of still_found]
      q r h s
    by (simp add: e)
qed

text \<open>
  The claim as it is written fails when a process survives the first call: Paint
  runs as process 4242, the probe finds it and \<^verbatim>\<open>taskkill\<close> fails. After the
  first call the record is inactive; the second call finds the process again and
  sends the three requests once more. It does so without a panic: of the claim,
  only the part on the kill attempts fails.
\<close>

theorem second_shutdown_kills_again:
  "proc_status ''Paint''
     (ShutdownAll still_found
        (launchProcess (starts 4242) ''Paint'' (StartProcessesFromConfig [default_p2])))
     = Some \<lparr>pid = 4242, active = False, error = False, timeout = False, done_flag = False,
             restartCount = 0\<rparr>
   \<and> os_trace (ShutdownAll still_found (ShutdownAll still_found
        (launchProcess (starts 4242) ''Paint'' (StartProcessesFromConfig [default_p2]))))
     = os_trace (ShutdownAll still_found
        (launchProcess (starts 4242) ''Paint'' (StartProcessesFromConfig [default_p2])))
       @ [OpenProcess 4242, ReleaseProcess 4242, SignalProcess SIGTERM 4242,
          SignalProcess SIGKILL 4242,
          RunCmd ''taskkill'' [''taskkill'', ''/T'', ''/F'', ''/PID'', ''4242''],
          ErrorNotKilled ''Paint'', CloseFile 1]
   \<and> panicked (ShutdownAll still_found (ShutdownAll still_found
        (launchProcess (starts 4242) ''Paint'' (StartProcessesFromConfig [default_p2])))) = None"
  by (simp add: proc_status_def launch_defs start_defs shutdown_defs env_defs default_p2_def
      Itoa_4242)

subsection \<open>The life of a record, step by step\<close>

text \<open>The two launchers and the body of the monitor, case by case.\<close>

lemma launchProcess_record_cases:
  "launchProcess_record env fresh rd =
     (let c0 = (exec_Command (Path (procConfig rd)))
                 \<lparr>SysProcAttr := Some (HideWindow (procConfig rd))\<rparr>;
          c = (if create_ok env then c0\<lparr>Stderr := Some fresh, Stdout := Some fresh\<rparr> else c0);
          ev = (if create_ok env then CreateLog (Name (procConfig rd)) fresh
                else CreateLogFailed (Name (procConfig rd)));
          l = (if create_ok env then Some fresh else procLog rd)
      in case start_result env of
           StartError \<Rightarrow>
             ([ev, StartCmd (Path (procConfig rd)) [Path (procConfig rd)]],
              rd\<lparr>procCmd := Some c, procLog := l,
                 procStatus := (procStatus rd)\<lparr>error := True\<rparr>\<rparr>,
              Some NilPointerDereference)
         | Started q \<Rightarrow>
             ([ev, StartCmd (Path (procConfig rd)) [Path (procConfig rd)], ReleaseProcess q],
              rd\<lparr>procCmd := Some (c\<lparr>Process := Some \<lparr>Pid = q\<rparr>\<rparr>), procLog := l,
                 procStatus := (procStatus rd)\<lparr>pid := q, active := True\<rparr>\<rparr>,
              None))"
  by (simp add: launchProcess_record_def doProcessSettings_def cmd_Start_def
      Process_Release_def exec_Command_def Let_def split: start_result.splits)

lemma launchProcessAndWait_record_cases:
  "launchProcessAndWait_record env fresh n rd =
     (let c0 = (exec_CommandContext (unat (WaitForExitTimeoutS (procConfig rd)) * 1000000000)
                  (Path (procConfig rd)))
                 \<lparr>SysProcAttr := Some (HideWindow (procConfig rd))\<rparr>;
          c = (if create_ok env then c0\<lparr>Stderr := Some fresh, Stdout := Some fresh\<rparr> else c0);
          ev = (if create_ok env then CreateLog (Name (procConfig rd)) fresh
                else CreateLogFailed (Name (procConfig rd)));
          l = (if create_ok env then Some fresh else procLog rd);
          st = (procStatus rd)\<lparr>active := True\<rparr>;
          evs = [InfoLaunchWait n, ev, RunCmd (Path (procConfig rd)) [Path (procConfig rd)]]
      in case start_result env of
           StartError \<Rightarrow>
             (evs, rd\<lparr>procCmd := Some c, procLog := l, procStatus := st\<lparr>error := True\<rparr>\<rparr>, None)
         | Started q \<Rightarrow>
             (evs,
              rd\<lparr>procCmd := Some (c\<lparr>Process := Some \<lparr>Pid = q\<rparr>\<rparr>), procLog := l,
                 procStatus :=
                   (case wait_result env of
                      ExitedBefore status \<Rightarrow>
                        if status = 0 then st\<lparr>done_flag := True\<rparr>
                        else st\<lparr>timeout := True, done_flag := True\<rparr>
                    | KilledAtDeadline \<Rightarrow> st\<lparr>timeout := True, done_flag := True\<rparr>)\<rparr>,
              None))"
  by (simp add: launchProcessAndWait_record_def ParseDuration_seconds_total doProcessSettings_def
      cmd_Run_def cmd_Start_def exec_CommandContext_def exec_Command_def Let_def
      split: start_result.splits wait_result.splits)


lemma launches_simps [simp]:
  "launches n [] = 0"
  "launches n (tr @ tr') = launches n tr + launches n tr'"
  "launches n (e # tr) = (if is_launch n e then 1 else 0) + launches n tr"
  by (simp_all add: launches_def)

lemma exits_simps [simp]:
  "exits n [] = 0"
  "exits n (tr @ tr') = exits n tr + exits n tr'"
  "exits n (e # tr) = (if is_exit n e then 1 else 0) + exits n tr"
  by (simp_all add: exits_def)

lemma restarts_simps [simp]:
  "restarts n [] = 0"
  "restarts n (tr @ tr') = restarts n tr + restarts n tr'"
  "restarts n (e # tr) = (if is_restart n e then 1 else 0) + restarts n tr"
  by (simp_all add: restarts_def)

lemma unat_inc:
  fixes x y :: "32 word"
  assumes "unat x < unat y"
  shows "unat (x + 1) = Suc (unat x)"
proof -
  have "unat y < 2 ^ 32"
    using unsigned_less [of y] by simp
  with assms have "unat x + 1 < 2 ^ 32"
    by simp
  then show ?thesis
    by (simp add: unat_word_ariths)
qed

lemma close_log_counts [simp]:
  "launches n (close_log l) = 0" "exits n (close_log l) = 0" "restarts n (close_log l) = 0"
  by (simp_all add: close_log_def split: option.splits)

lemma launchProcess_record_counts [simp]:
  "launches n (fst (launchProcess_record env fresh rd)) = 0"
  "exits n (fst (launchProcess_record env fresh rd)) = 0"
  "restarts n (fst (launchProcess_record env fresh rd)) = 0"
  by (simp_all add: launchProcess_record_cases Let_def split: start_result.splits)

lemma launchProcessAndWait_record_counts [simp]:
  "launches n (fst (launchProcessAndWait_record env fresh m rd)) = 0"
  "exits n (fst (launchProcessAndWait_record env fresh m rd)) = 0"
  "restarts n (fst (launchProcessAndWait_record env fresh m rd)) = 0"
  by (simp_all add: launchProcessAndWait_record_cases Let_def split: start_result.splits)

lemma lifecycle_launch:
  assumes "lifecycle n rd [LaunchNoWait n] L E R"
  shows "lifecycle n (fst (snd (launchProcess_record env fresh rd))) [] (Suc L) E R"
  using assms
  by (auto simp: lifecycle_def launchProcess_record_cases Let_def handle_pid_def
      split: start_result.splits)

lemma lifecycle_restart:
  assumes "lifecycle n rd [Restart n] L E R"
  shows "lifecycle n
           (fst (snd (launchProcess_record env fresh
              (rd\<lparr>procStatus := (procStatus rd)
                     \<lparr>restartCount := restartCount (procStatus rd) + 1\<rparr>\<rparr>))))
           [] (Suc L) E (Suc R)"
  using assms
  by (auto simp: lifecycle_def launchProcess_record_cases Let_def handle_pid_def unat_inc
      split: start_result.splits)

lemma lifecycle_launch_wait:
  assumes "lifecycle n rd [LaunchAndWait n] L E R"
  shows "lifecycle n (fst (snd (launchProcessAndWait_record env fresh n rd))) [] L E R"
  using assms
  by (auto simp: lifecycle_def launchProcessAndWait_record_cases Let_def
      split: start_result.splits wait_result.splits if_splits)


lemma monitor_record_cases:
  "monitor_record opens n rd =
     (if WaitForExitTimeoutS (procConfig rd) = 0 \<and> procCmd rd \<noteq> None \<and> active (procStatus rd)
      then
        if opens then ([OpenProcess (word_of_int (pid (procStatus rd)))], rd, [])
        else
          (let evs = [OpenProcess (word_of_int (pid (procStatus rd))),
                      WarnExited n (pid (procStatus rd))] @ close_log (procLog rd)
           in if unat (MaxRestarts (procConfig rd)) = 0 then (evs, deactivated rd, [])
              else if unat (restartCount (procStatus rd)) < unat (MaxRestarts (procConfig rd))
              then (evs, deactivated rd, [Restart n])
              else (evs @ [ErrorMaxRestarts n],
                    rd\<lparr>procStatus := (procStatus rd)\<lparr>active := False, error := True\<rparr>\<rparr>, []))
      else ([], rd, []))"
  by (simp add: monitor_record_def checkProcessRunning_def deactivated_def Let_def
      word_less_nat_alt unat_gt_0 unat_eq_0)

lemma lifecycle_active:
  assumes "lifecycle n rd pend L E R"
    and "WaitForExitTimeoutS (procConfig rd) = 0" and "active (procStatus rd)"
  shows "pend = [] \<and> L = unat (restartCount (procStatus rd)) + 1
         \<and> E = unat (restartCount (procStatus rd)) \<and> R = unat (restartCount (procStatus rd))
         \<and> unat (restartCount (procStatus rd)) \<le> unat (MaxRestarts (procConfig rd))
         \<and> \<not> error (procStatus rd) \<and> handle_pid rd = Some (pid (procStatus rd))"
  using assms by (simp add: lifecycle_def Let_def)

lemma lifecycle_respawn:
  assumes "WaitForExitTimeoutS (procConfig rd) = 0"
    and "R = unat (restartCount (procStatus rd))"
    and "\<not> active (procStatus rd)" and "\<not> error (procStatus rd)"
    and "L = unat (restartCount (procStatus rd)) + 1"
    and "E = unat (restartCount (procStatus rd)) + 1"
    and "unat (restartCount (procStatus rd)) < unat (MaxRestarts (procConfig rd))"
  shows "lifecycle n rd [Restart n] L E R"
  using assms by (simp add: lifecycle_def Let_def)

lemma lifecycle_given_up:
  assumes "WaitForExitTimeoutS (procConfig rd) = 0"
    and "R = unat (restartCount (procStatus rd))"
    and "\<not> active (procStatus rd)"
    and "L = unat (MaxRestarts (procConfig rd)) + 1"
    and "E = unat (MaxRestarts (procConfig rd)) + 1"
    and "unat (restartCount (procStatus rd)) = unat (MaxRestarts (procConfig rd))"
    and "0 < unat (MaxRestarts (procConfig rd)) \<Longrightarrow> error (procStatus rd)"
  shows "lifecycle n rd [] L E R"
  using assms by (simp add: lifecycle_def Let_def)

lemma lifecycle_monitor:
  assumes inv: "lifecycle n rd pend L E R"
  shows "lifecycle n (fst (snd (monitor_record opens n rd)))
           (pend @ snd (snd (monitor_record opens n rd)))
           L (E + exits n (fst (monitor_record opens n rd))) R"
proof (cases "WaitForExitTimeoutS (procConfig rd) = 0 \<and> procCmd rd \<noteq> None
                \<and> active (procStatus rd) \<and> \<not> opens")
  case False
  then have "monitor_record opens n rd = ([], rd, [])
             \<or> monitor_record opens n rd
                  = ([OpenProcess (word_of_int (pid (procStatus rd)))], rd, [])"
    by (auto simp: monitor_record_cases)
  with inv show ?thesis
    by auto
next
  case True
  then have nowait: "WaitForExitTimeoutS (procConfig rd) = 0" and act: "active (procStatus rd)"
    by simp_all
  note st = lifecycle_active [OF inv nowait act]
  let ?rc = "unat (restartCount (procStatus rd))"
  let ?N = "unat (MaxRestarts (procConfig rd))"
  let ?evs = "[OpenProcess (word_of_int (pid (procStatus rd))),
               WarnExited n (pid (procStatus rd))] @ close_log (procLog rd)"
  consider (never) "?N = 0" | (again) "?N \<noteq> 0" "?rc < ?N" | (enough) "?N \<noteq> 0" "\<not> ?rc < ?N"
    by blast
  then show ?thesis
  proof cases
    case never
    then have m: "monitor_record opens n rd = (?evs, deactivated rd, [])"
      using True by (simp add: monitor_record_cases Let_def)
    have "lifecycle n (deactivated rd) [] L (E + 1) R"
      using st never nowait by (intro lifecycle_given_up) (simp_all add: deactivated_def)
    with st m show ?thesis
      by simp
  next
    case again
    then have m: "monitor_record opens n rd = (?evs, deactivated rd, [Restart n])"
      using True by (simp add: monitor_record_cases Let_def)
    have "lifecycle n (deactivated rd) [Restart n] L (E + 1) R"
      using st again nowait by (intro lifecycle_respawn) (simp_all add: deactivated_def)
    with st m show ?thesis
      by simp
  next
    case enough
    let ?rd = "rd\<lparr>procStatus := (procStatus rd)\<lparr>active := False, error := True\<rparr>\<rparr>"
    from enough have m: "monitor_record opens n rd = (?evs @ [ErrorMaxRestarts n], ?rd, [])"
      using True by (simp add: monitor_record_cases Let_def)
    have "lifecycle n ?rd [] L (E + 1) R"
      using st enough nowait by (intro lifecycle_given_up) simp_all
    with st m show ?thesis
      by simp
  qed
qed

lemma monitor_record_counts [simp]:
  "launches n (fst (monitor_record opens m rd)) = 0"
  "restarts n (fst (monitor_record opens m rd)) = 0"
  "m \<noteq> n \<Longrightarrow> exits n (fst (monitor_record opens m rd)) = 0"
  "m \<noteq> n \<Longrightarrow> pending n (snd (snd (monitor_record opens m rd))) = []"
  by (simp_all add: monitor_record_cases Let_def pending_def)

lemma shutdown_record_counts [simp]:
  "launches n (fst (shutdown_record env m rd)) = 0"
  "exits n (fst (shutdown_record env m rd)) = 0"
  "restarts n (fst (shutdown_record env m rd)) = 0"
  by (simp_all add: shutdown_record_cases kill_requests_def split: option.splits)

lemma lifecycle_shutdown:
  assumes "lifecycle n rd pend L E R"
  shows "lifecycle n (fst (snd (shutdown_record env n rd))) pend L E R"
  using assms
  by (auto simp: lifecycle_def shutdown_record_cases Let_def deactivated_def
      split: if_splits option.splits)

lemma record_inv_cong:
  assumes "map_of (gProcRuntimeData w') n = map_of (gProcRuntimeData w) n"
    and "pending n (goroutines w') = pending n (goroutines w)"
    and "launches n (os_trace w') = launches n (os_trace w)"
    and "exits n (os_trace w') = exits n (os_trace w)"
    and "restarts n (os_trace w') = restarts n (os_trace w)"
  shows "record_inv n w' = record_inv n w"
  using assms by (simp add: record_inv_def split: option.splits)

lemma on_record_goroutines [simp]: "goroutines (on_record body m w) = goroutines w"
  by (simp add: on_record_def split: option.splits prod.splits)

lemma on_record_lookup:
  "map_of (gProcRuntimeData (on_record body m w)) n =
     (if n = m then map_option (\<lambda>rd. fst (snd (body rd))) (map_of (gProcRuntimeData w) m)
      else map_of (gProcRuntimeData w) n)"
  by (simp add: on_record_def update_conv' split: option.splits prod.splits)

lemma on_record_trace:
  "os_trace (on_record body m w) =
     os_trace w @ (case map_of (gProcRuntimeData w) m of None \<Rightarrow> [] | Some rd \<Rightarrow> fst (body rd))"
  by (simp add: on_record_def split: option.splits prod.splits)

lemma record_inv_on_record_other:
  assumes "m \<noteq> n"
    and "\<And>rd. launches n (fst (body rd)) = 0"
    and "\<And>rd. exits n (fst (body rd)) = 0"
    and "\<And>rd. restarts n (fst (body rd)) = 0"
  shows "record_inv n (on_record body m w) = record_inv n w"
  using assms
  by (intro record_inv_cong) (simp_all add: on_record_lookup on_record_trace split: option.splits)

lemma record_inv_on_record_same:
  assumes "\<And>rd. map_of (gProcRuntimeData w) n = Some rd \<Longrightarrow>
             lifecycle n (fst (snd (body rd))) (pending n (goroutines w))
               (launches n (os_trace w) + launches n (fst (body rd)))
               (exits n (os_trace w) + exits n (fst (body rd)))
               (restarts n (os_trace w) + restarts n (fst (body rd)))"
  shows "record_inv n (on_record body n w)"
  using assms
  by (cases "map_of (gProcRuntimeData w) n")
     (simp_all add: record_inv_def on_record_lookup on_record_trace)

text \<open>\<^verbatim>\<open>ShutdownAll\<close> keeps every record in its life.\<close>

lemma record_inv_shutdown_one:
  assumes "record_inv n w"
  shows "record_inv n (shutdown_one env m w)"
proof (cases "m = n")
  case False
  then show ?thesis
    using assms by (simp add: shutdown_one_def record_inv_on_record_other)
next
  case True
  show ?thesis
    unfolding shutdown_one_def True
  proof (rule record_inv_on_record_same)
    fix rd
    assume "map_of (gProcRuntimeData w) n = Some rd"
    with assms have "lifecycle n rd (pending n (goroutines w)) (launches n (os_trace w))
                       (exits n (os_trace w)) (restarts n (os_trace w))"
      by (simp add: record_inv_def)
    then show "lifecycle n (fst (snd (shutdown_record (env n) n rd))) (pending n (goroutines w))
                 (launches n (os_trace w) + launches n (fst (shutdown_record (env n) n rd)))
                 (exits n (os_trace w) + exits n (fst (shutdown_record (env n) n rd)))
                 (restarts n (os_trace w) + restarts n (fst (shutdown_record (env n) n rd)))"
      by (simp add: lifecycle_shutdown)
  qed
qed

lemma record_inv_shutdown_loop:
  "record_inv n w \<Longrightarrow> record_inv n (shutdown_loop env names w)"
  by (induction names arbitrary: w) (simp_all add: record_inv_shutdown_one)

lemma record_inv_ShutdownAll:
  assumes "record_inv n w"
  shows "record_inv n (ShutdownAll env w)"
proof -
  have "record_inv n (w\<lparr>gStopMon := True\<rparr>) = record_inv n w"
    by (rule record_inv_cong) simp_all
  with assms show ?thesis
    by (simp add: ShutdownAll_def record_inv_shutdown_loop)
qed

text \<open>So does every step of the monitor.\<close>

lemma pending_append [simp]: "pending n (gs @ gs') = pending n gs @ pending n gs'"
  by (simp add: pending_def)

lemma monitor_record_spawned:
  "pending n (snd (snd (monitor_record opens n rd))) = snd (snd (monitor_record opens n rd))"
  by (simp add: monitor_record_cases Let_def pending_def)

lemma record_inv_monitor_visit:
  assumes "record_inv n w"
  shows "record_inv n (monitor_visit opens m w)"
proof (cases "map_of (gProcRuntimeData w) m")
  case None
  then show ?thesis
    using assms by (simp add: monitor_visit_def)
next
  case (Some rd)
  obtain evs rd' spawned where m: "monitor_record opens m rd = (evs, rd', spawned)"
    by (cases "monitor_record opens m rd")
  have w': "monitor_visit opens m w =
              w\<lparr>gProcRuntimeData := AList.update m rd' (gProcRuntimeData w),
                os_trace := os_trace w @ evs, goroutines := goroutines w @ spawned\<rparr>"
    using Some m by (simp add: monitor_visit_def)
  show ?thesis
  proof (cases "m = n")
    case False
    have "record_inv n (monitor_visit opens m w) = record_inv n w"
    proof (rule record_inv_cong)
      show "pending n (goroutines (monitor_visit opens m w)) = pending n (goroutines w)"
        using False monitor_record_counts(4) [of m n opens rd] m by (simp add: w')
      show "exits n (os_trace (monitor_visit opens m w)) = exits n (os_trace w)"
        using False monitor_record_counts(3) [of m n opens rd] m by (simp add: w')
      show "launches n (os_trace (monitor_visit opens m w)) = launches n (os_trace w)"
        using monitor_record_counts(1) [of n opens m rd] m by (simp add: w')
      show "restarts n (os_trace (monitor_visit opens m w)) = restarts n (os_trace w)"
        using monitor_record_counts(2) [of n opens m rd] m by (simp add: w')
      show "map_of (gProcRuntimeData (monitor_visit opens m w)) n = map_of (gProcRuntimeData w) n"
        using False by (simp add: w' update_conv')
    qed
    with assms show ?thesis
      by simp
  next
    case True
    from assms Some True
    have "lifecycle n rd (pending n (goroutines w)) (launches n (os_trace w))
            (exits n (os_trace w)) (restarts n (os_trace w))"
      by (simp add: record_inv_def)
    from lifecycle_monitor [OF this, of opens]
    show ?thesis
      using m [unfolded True] monitor_record_counts(1) [of n opens n rd]
        monitor_record_counts(2) [of n opens n rd] monitor_record_spawned [of n opens rd]
      by (simp add: w' [unfolded True] True record_inv_def update_conv')
  qed
qed

lemma record_inv_monitor_step:
  assumes "record_inv n w"
  shows "record_inv n (monitor_step opens w)"
proof -
  have pc: "record_inv n (w'\<lparr>monitor := x\<rparr>) = record_inv n w'" for w' x
    by (rule record_inv_cong) simp_all
  show ?thesis
    using assms
    by (simp add: monitor_step_def pc record_inv_monitor_visit
        split: monitor_pc.splits list.splits)
qed

lemma pending_remove_other:
  assumes "i < length gs" and "task_name (gs ! i) \<noteq> n"
  shows "pending n (take i gs @ drop (Suc i) gs) = pending n gs"
proof -
  have "pending n gs = pending n (take i gs @ gs ! i # drop (Suc i) gs)"
    using assms(1) by (simp add: id_take_nth_drop [symmetric])
  also have "\<dots> = pending n (take i gs @ drop (Suc i) gs)"
    using assms(2) by (simp add: pending_def)
  finally show ?thesis ..
qed

lemma pending_remove_same:
  assumes "i < length gs" and "task_name (gs ! i) = n" and "pending n gs = [t]"
  shows "gs ! i = t \<and> pending n (take i gs @ drop (Suc i) gs) = []"
proof -
  have "pending n gs = pending n (take i gs @ gs ! i # drop (Suc i) gs)"
    using assms(1) by (simp add: id_take_nth_drop [symmetric])
  also have "\<dots> = pending n (take i gs) @ gs ! i # pending n (drop (Suc i) gs)"
    using assms(2) by (simp add: pending_def)
  finally have "pending n (take i gs) @ gs ! i # pending n (drop (Suc i) gs) = [t]"
    using assms(3) by simp
  then show ?thesis
    by (simp add: append_eq_Cons_conv)
qed

lemma lifecycle_pending:
  assumes "lifecycle n rd pend L E R" and "pend \<noteq> []"
  shows "pend = [LaunchNoWait n] \<or> pend = [LaunchAndWait n] \<or> pend = [Restart n]"
  using assms by (auto simp: lifecycle_def Let_def split: if_splits)

lemma pending_member:
  assumes "i < length gs" and "task_name (gs ! i) = n"
  shows "pending n gs \<noteq> []"
proof -
  have "gs ! i \<in> set (pending n gs)"
    using assms by (simp add: pending_def)
  then show ?thesis
    by auto
qed

lemma record_inv_drop_field:
  "record_inv n (w\<lparr>goroutines := gs\<rparr>) = record_inv n w" if "pending n gs = pending n (goroutines w)"
  using that by (intro record_inv_cong) simp_all

text \<open>A goroutine of another process leaves the record alone.\<close>

lemma record_inv_launchProcess_other:
  assumes "m \<noteq> n"
  shows "record_inv n (launchProcess env m w) = record_inv n w"
proof -
  have "record_inv n (launchProcess env m w)
          = record_inv n (w\<lparr>os_trace := os_trace w @ [InfoLaunch m]\<rparr>)"
    unfolding launchProcess_def using assms by (intro record_inv_on_record_other) simp_all
  also have "\<dots> = record_inv n w"
    using assms by (intro record_inv_cong) simp_all
  finally show ?thesis .
qed

lemma record_inv_launchProcessAndWait_other:
  assumes "m \<noteq> n"
  shows "record_inv n (launchProcessAndWait env m w) = record_inv n w"
  unfolding launchProcessAndWait_def using assms by (intro record_inv_on_record_other) simp_all

lemma record_inv_restart_other:
  assumes "m \<noteq> n"
  shows "record_inv n (restart_goroutine env m w) = record_inv n w"
proof (cases "map_of (gProcRuntimeData w) m")
  case None
  then show ?thesis
    by (simp add: restart_goroutine_def)
next
  case (Some rd)
  define rd1 where "rd1 = rd\<lparr>procStatus := (procStatus rd)
                       \<lparr>restartCount := restartCount (procStatus rd) + 1\<rparr>\<rparr>"
  define w1 where "w1 = w\<lparr>gProcRuntimeData := AList.update m rd1 (gProcRuntimeData w),
                          os_trace := os_trace w @ [InfoRestart m (restartCount (procStatus rd1))]\<rparr>"
  have "restart_goroutine env m w = launchProcess env m w1"
    using Some by (simp add: restart_goroutine_def rd1_def w1_def Let_def)
  moreover have "record_inv n w1 = record_inv n w"
    using assms by (intro record_inv_cong) (simp_all add: w1_def update_conv')
  ultimately show ?thesis
    using assms by (simp add: record_inv_launchProcess_other)
qed

lemma record_inv_run_task_other:
  assumes "task_name t \<noteq> n"
  shows "record_inv n (run_task env t w) = record_inv n w"
  using assms
  by (cases t)
     (simp_all add: record_inv_launchProcess_other record_inv_launchProcessAndWait_other
       record_inv_restart_other)

text \<open>A goroutine of the process itself moves its record on.\<close>

lemma record_inv_launchProcess_same:
  assumes "\<And>rd. map_of (gProcRuntimeData w) n = Some rd \<Longrightarrow>
             lifecycle n rd [LaunchNoWait n] (launches n (os_trace w)) (exits n (os_trace w))
               (restarts n (os_trace w))"
    and "pending n (goroutines w) = []"
  shows "record_inv n (launchProcess env n w)"
  unfolding launchProcess_def
proof (rule record_inv_on_record_same)
  fix rd
  assume "map_of (gProcRuntimeData (w\<lparr>os_trace := os_trace w @ [InfoLaunch n]\<rparr>)) n = Some rd"
  then have "lifecycle n rd [LaunchNoWait n] (launches n (os_trace w)) (exits n (os_trace w))
               (restarts n (os_trace w))"
    using assms(1) by simp
  from lifecycle_launch [OF this, of env "Suc (fresh_file w)"]
  show "lifecycle n
          (fst (snd (launchProcess_record env (Suc (fresh_file w)) rd)))
          (pending n (goroutines (w\<lparr>os_trace := os_trace w @ [InfoLaunch n]\<rparr>)))
          (launches n (os_trace (w\<lparr>os_trace := os_trace w @ [InfoLaunch n]\<rparr>)) +
             launches n (fst (launchProcess_record env (Suc (fresh_file w)) rd)))
          (exits n (os_trace (w\<lparr>os_trace := os_trace w @ [InfoLaunch n]\<rparr>)) +
             exits n (fst (launchProcess_record env (Suc (fresh_file w)) rd)))
          (restarts n (os_trace (w\<lparr>os_trace := os_trace w @ [InfoLaunch n]\<rparr>)) +
             restarts n (fst (launchProcess_record env (Suc (fresh_file w)) rd)))"
    using assms(2) by simp
qed

lemma record_inv_launchProcessAndWait_same:
  assumes "\<And>rd. map_of (gProcRuntimeData w) n = Some rd \<Longrightarrow>
             lifecycle n rd [LaunchAndWait n] (launches n (os_trace w)) (exits n (os_trace w))
               (restarts n (os_trace w))"
    and "pending n (goroutines w) = []"
  shows "record_inv n (launchProcessAndWait env n w)"
  unfolding launchProcessAndWait_def
proof (rule record_inv_on_record_same)
  fix rd
  assume "map_of (gProcRuntimeData w) n = Some rd"
  then have "lifecycle n rd [LaunchAndWait n] (launches n (os_trace w)) (exits n (os_trace w))
               (restarts n (os_trace w))"
    by (rule assms(1))
  from lifecycle_launch_wait [OF this, of env "Suc (fresh_file w)"]
  show "lifecycle n
          (fst (snd (launchProcessAndWait_record env (Suc (fresh_file w)) n rd)))
          (pending n (goroutines w))
          (launches n (os_trace w) +
             launches n (fst (launchProcessAndWait_record env (Suc (fresh_file w)) n rd)))
          (exits n (os_trace w) +
             exits n (fst (launchProcessAndWait_record env (Suc (fresh_file w)) n rd)))
          (restarts n (os_trace w) +
             restarts n (fst (launchProcessAndWait_record env (Suc (fresh_file w)) n rd)))"
    using assms(2) by simp
qed

lemma record_inv_restart_same:
  assumes "\<And>rd. map_of (gProcRuntimeData w) n = Some rd \<Longrightarrow>
             lifecycle n rd [Restart n] (launches n (os_trace w)) (exits n (os_trace w))
               (restarts n (os_trace w))"
    and "pending n (goroutines w) = []"
  shows "record_inv n (restart_goroutine env n w)"
proof (cases "map_of (gProcRuntimeData w) n")
  case None
  then show ?thesis
    by (simp add: restart_goroutine_def record_inv_def)
next
  case (Some rd)
  define rd1 where "rd1 = rd\<lparr>procStatus := (procStatus rd)
                       \<lparr>restartCount := restartCount (procStatus rd) + 1\<rparr>\<rparr>"
  define w1 where "w1 = w\<lparr>gProcRuntimeData := AList.update n rd1 (gProcRuntimeData w),
                          os_trace := os_trace w @ [InfoRestart n (restartCount (procStatus rd1))]\<rparr>"
  define w2 where "w2 = w1\<lparr>os_trace := os_trace w1 @ [InfoLaunch n]\<rparr>"
  have r: "restart_goroutine env n w = on_record (launchProcess_record env (Suc (fresh_file w1))) n w2"
    using Some by (simp add: restart_goroutine_def launchProcess_def rd1_def w1_def w2_def Let_def)
  have l: "map_of (gProcRuntimeData w2) n = Some rd1"
    by (simp add: w2_def w1_def update_conv')
  have "lifecycle n rd [Restart n] (launches n (os_trace w)) (exits n (os_trace w))
          (restarts n (os_trace w))"
    using Some by (rule assms(1))
  from lifecycle_restart [OF this, of env "Suc (fresh_file w1)"]
  have "lifecycle n (fst (snd (launchProcess_record env (Suc (fresh_file w1)) rd1))) []
          (Suc (launches n (os_trace w))) (exits n (os_trace w)) (Suc (restarts n (os_trace w)))"
    by (simp add: rd1_def)
  then show ?thesis
    unfolding r
    using l assms(2) by (intro record_inv_on_record_same) (simp add: w2_def w1_def)
qed

lemma run_task_keys:
  "map_of (gProcRuntimeData (run_task env t w)) n = None \<longleftrightarrow> map_of (gProcRuntimeData w) n = None"
  by (cases t)
     (auto simp: launchProcess_def launchProcessAndWait_def restart_goroutine_def on_record_lookup
       update_conv' Let_def split: option.splits if_splits)

lemma record_inv_run_task:
  assumes inv: "record_inv n w" and i: "i < length (goroutines w)"
  shows "record_inv n (run_task env (goroutines w ! i)
           (w\<lparr>goroutines := take i (goroutines w) @ drop (Suc i) (goroutines w)\<rparr>))"
proof -
  define t where "t = goroutines w ! i"
  define w0 where "w0 = w\<lparr>goroutines := take i (goroutines w) @ drop (Suc i) (goroutines w)\<rparr>"
  show ?thesis
    unfolding t_def [symmetric] w0_def [symmetric]
  proof (cases "task_name t = n")
    case False
    have "pending n (take i (goroutines w) @ drop (Suc i) (goroutines w))
            = pending n (goroutines w)"
      using i False unfolding t_def by (rule pending_remove_other)
    then have "record_inv n w0 = record_inv n w"
      unfolding w0_def by (rule record_inv_drop_field)
    with inv False show "record_inv n (run_task env t w0)"
      by (simp add: record_inv_run_task_other)
  next
    case True
    show "record_inv n (run_task env t w0)"
    proof (cases "map_of (gProcRuntimeData w) n")
      case None
      then have "map_of (gProcRuntimeData (run_task env t w0)) n = None"
        by (simp add: run_task_keys w0_def)
      then show ?thesis
        by (simp add: record_inv_def)
    next
      case (Some rd)
      with inv have lc: "lifecycle n rd (pending n (goroutines w)) (launches n (os_trace w))
                           (exits n (os_trace w)) (restarts n (os_trace w))"
        by (simp add: record_inv_def)
      have ne: "pending n (goroutines w) \<noteq> []"
        using i True by (intro pending_member) (simp_all add: t_def)
      from lifecycle_pending [OF lc ne]
      obtain t' where t': "pending n (goroutines w) = [t']"
        by blast
      from pending_remove_same [OF i _ t'] True
      have tt: "t = t'" and p0: "pending n (goroutines w0) = []"
        by (simp_all add: t_def w0_def)
      have lc0: "lifecycle n rd' [t] (launches n (os_trace w0)) (exits n (os_trace w0))
                   (restarts n (os_trace w0))"
        if "map_of (gProcRuntimeData w0) n = Some rd'" for rd'
        using that lc Some t' tt by (simp add: w0_def)
      from True have "t = LaunchNoWait n \<or> t = LaunchAndWait n \<or> t = Restart n"
        by (cases t) simp_all
      then show ?thesis
      proof (elim disjE)
        assume t: "t = LaunchNoWait n"
        have "record_inv n (launchProcess env n w0)"
          by (rule record_inv_launchProcess_same) (use lc0 p0 t in simp_all)
        then show ?thesis
          by (simp add: t)
      next
        assume t: "t = LaunchAndWait n"
        have "record_inv n (launchProcessAndWait env n w0)"
          by (rule record_inv_launchProcessAndWait_same) (use lc0 p0 t in simp_all)
        then show ?thesis
          by (simp add: t)
      next
        assume t: "t = Restart n"
        have "record_inv n (restart_goroutine env n w0)"
          by (rule record_inv_restart_same) (use lc0 p0 t in simp_all)
        then show ?thesis
          by (simp add: t)
      qed
    qed
  qed
qed

lemma record_inv_step:
  assumes "record_inv n w"
  shows "record_inv n (step e w)"
  using assms
  by (cases e)
     (simp_all add: step_def record_inv_run_task record_inv_monitor_step record_inv_ShutdownAll)

lemma record_inv_run:
  "record_inv n w \<Longrightarrow> record_inv n (run es w)"
  by (induction es arbitrary: w) (simp_all add: record_inv_step)

subsection \<open>Every run keeps every record in its life\<close>

text \<open>The registry built at start-up has distinct names and new records.\<close>

lemma build_registry_fold:
  assumes "distinct (map fst acc)"
    and "\<And>k rd. map_of acc k = Some rd \<Longrightarrow> \<exists>c. rd = NewProcRuntimeData c"
  shows "distinct (map fst (fold (\<lambda>c reg. AList.update (Name c) (NewProcRuntimeData c) reg) Tasks acc))
       \<and> (\<forall>k rd. map_of (fold (\<lambda>c reg. AList.update (Name c) (NewProcRuntimeData c) reg) Tasks acc) k
               = Some rd \<longrightarrow> (\<exists>c. rd = NewProcRuntimeData c))"
  using assms
proof (induction Tasks arbitrary: acc)
  case Nil
  then show ?case by simp
next
  case (Cons t Tasks)
  show ?case
    unfolding fold_simps
  proof (rule Cons.IH)
    show "distinct (map fst (AList.update (Name t) (NewProcRuntimeData t) acc))"
      using Cons.prems(1) by (rule distinct_update)
    show "\<exists>c. rd = NewProcRuntimeData c"
      if "map_of (AList.update (Name t) (NewProcRuntimeData t) acc) k = Some rd" for k rd
      using that Cons.prems(2) by (auto simp: update_conv' split: if_splits)
  qed
qed

lemma build_registry_distinct: "distinct (map fst (build_registry Tasks))"
  using build_registry_fold [of "[]" Tasks] by (simp add: build_registry_def)

lemma build_registry_new:
  "map_of (build_registry Tasks) n = Some rd \<Longrightarrow> \<exists>c. rd = NewProcRuntimeData c"
  using build_registry_fold [of "[]" Tasks] by (simp add: build_registry_def)

lemma task_name_initial_task [simp]: "task_name (initial_task (k, rd)) = k"
  by (simp add: initial_task_def)

lemma pending_initial_tasks:
  assumes "distinct (map fst reg)"
  shows "pending n (map initial_task reg) =
           (case map_of reg n of None \<Rightarrow> [] | Some rd \<Rightarrow> [initial_task (n, rd)])"
  using assms
proof (induction reg)
  case Nil
  then show ?case by (simp add: pending_def)
next
  case (Cons kv reg)
  obtain k rd where kv: "kv = (k, rd)"
    by (cases kv)
  from Cons.prems have "k \<notin> fst ` set reg" and "distinct (map fst reg)"
    by (simp_all add: kv)
  then have none: "map_of reg k = None" and IH: "pending n (map initial_task reg) =
      (case map_of reg n of None \<Rightarrow> [] | Some rd \<Rightarrow> [initial_task (n, rd)])"
    using Cons.IH by (simp_all add: map_of_eq_None_iff)
  have "pending n (map initial_task (kv # reg)) =
          (if k = n then [initial_task (k, rd)] else []) @ pending n (map initial_task reg)"
    by (simp add: pending_def kv)
  then show ?case
    using none IH by (auto simp: kv)
qed

lemma lifecycle_new:
  "lifecycle n (NewProcRuntimeData c) [initial_task (n, NewProcRuntimeData c)] 0 0 0"
  by (simp add: lifecycle_def NewProcRuntimeData_def initial_task_def Let_def)

lemma record_inv_start: "record_inv n (StartProcessesFromConfig Tasks)"
proof (cases "map_of (build_registry Tasks) n")
  case None
  then show ?thesis
    by (simp add: record_inv_def StartProcessesFromConfig_def)
next
  case (Some rd)
  then obtain c where "rd = NewProcRuntimeData c"
    using build_registry_new by blast
  with Some show ?thesis
    by (simp add: record_inv_def StartProcessesFromConfig_def
        pending_initial_tasks [OF build_registry_distinct] lifecycle_new)
qed

lemma record_inv_reachable: "record_inv n (run es (StartProcessesFromConfig Tasks))"
  by (simp add: record_inv_run record_inv_start)

text \<open>The configuration of a record is never written.\<close>

lemma config_on_record:
  assumes "\<And>rd. procConfig (fst (snd (body rd))) = procConfig rd"
  shows "config_of n (on_record body m w) = config_of n w"
  using assms
  by (cases "map_of (gProcRuntimeData w) m") (simp_all add: config_of_def on_record_lookup)

lemma config_launchProcess_record [simp]:
  "procConfig (fst (snd (launchProcess_record env fresh rd))) = procConfig rd"
  by (simp add: launchProcess_record_cases Let_def split: start_result.splits)

lemma config_launchProcessAndWait_record [simp]:
  "procConfig (fst (snd (launchProcessAndWait_record env fresh m rd))) = procConfig rd"
  by (simp add: launchProcessAndWait_record_cases Let_def split: start_result.splits)

lemma config_monitor_record [simp]:
  "procConfig (fst (snd (monitor_record opens m rd))) = procConfig rd"
  by (simp add: monitor_record_cases Let_def deactivated_def)

lemma config_shutdown_record [simp]:
  "procConfig (fst (snd (shutdown_record env m rd))) = procConfig rd"
  by (simp add: shutdown_record_cases deactivated_def split: option.splits)

lemma config_launchProcess [simp]: "config_of n (launchProcess env m w) = config_of n w"
proof -
  have "config_of n (launchProcess env m w)
          = config_of n (w\<lparr>os_trace := os_trace w @ [InfoLaunch m]\<rparr>)"
    unfolding launchProcess_def by (rule config_on_record) simp
  then show ?thesis
    by (simp add: config_of_def)
qed

lemma config_launchProcessAndWait [simp]:
  "config_of n (launchProcessAndWait env m w) = config_of n w"
  unfolding launchProcessAndWait_def by (rule config_on_record) simp

lemma config_restart [simp]: "config_of n (restart_goroutine env m w) = config_of n w"
proof (cases "map_of (gProcRuntimeData w) m")
  case None
  then show ?thesis
    by (simp add: restart_goroutine_def)
next
  case (Some rd)
  then show ?thesis
    by (simp add: restart_goroutine_def Let_def) (auto simp: config_of_def update_conv')
qed

lemma config_monitor_visit [simp]: "config_of n (monitor_visit opens m w) = config_of n w"
proof (cases "map_of (gProcRuntimeData w) m")
  case None
  then show ?thesis
    by (simp add: monitor_visit_def)
next
  case (Some rd)
  then show ?thesis
    using config_monitor_record [of opens m rd]
    by (cases "monitor_record opens m rd") (auto simp: monitor_visit_def config_of_def update_conv')
qed

lemma config_shutdown_loop [simp]: "config_of n (shutdown_loop env names w) = config_of n w"
proof (induction names arbitrary: w)
  case Nil
  then show ?case by simp
next
  case (Cons m names)
  have "config_of n (shutdown_one env m w) = config_of n w"
    unfolding shutdown_one_def by (rule config_on_record) simp
  with Cons show ?case
    by simp
qed

lemma config_field [simp]:
  "config_of n (w\<lparr>goroutines := gs\<rparr>) = config_of n w"
  "config_of n (w\<lparr>monitor := pc\<rparr>) = config_of n w"
  "config_of n (w\<lparr>gStopMon := b\<rparr>) = config_of n w"
  by (simp_all add: config_of_def)

lemma config_step: "config_of n (step e w) = config_of n w"
proof (cases e)
  case (Goroutine i env)
  then show ?thesis
    by (cases "goroutines w ! i") (simp_all add: step_def)
next
  case (Monitor opens)
  then show ?thesis
    by (simp add: step_def monitor_step_def split: monitor_pc.splits list.splits)
next
  case (ShutdownRequest env)
  then show ?thesis
    by (simp add: step_def ShutdownAll_def)
qed

lemma config_run: "config_of n (run es w) = config_of n w"
  by (induction es arbitrary: w) (simp_all add: config_step)

text \<open>The trace only grows.\<close>

lemma trace_on_record: "prefix (os_trace w) (os_trace (on_record body m w))"
  by (simp add: on_record_trace)

lemma trace_launchProcess: "prefix (os_trace w) (os_trace (launchProcess env m w))"
proof -
  have "prefix (os_trace w) (os_trace (w\<lparr>os_trace := os_trace w @ [InfoLaunch m]\<rparr>))"
    by simp
  also have "prefix \<dots> (os_trace (launchProcess env m w))"
    unfolding launchProcess_def by (rule trace_on_record)
  finally show ?thesis .
qed

lemma trace_restart: "prefix (os_trace w) (os_trace (restart_goroutine env m w))"
proof (cases "map_of (gProcRuntimeData w) m")
  case None
  then show ?thesis
    by (simp add: restart_goroutine_def)
next
  case (Some rd)
  define rd1 where "rd1 = rd\<lparr>procStatus := (procStatus rd)
                       \<lparr>restartCount := restartCount (procStatus rd) + 1\<rparr>\<rparr>"
  define w1 where "w1 = w\<lparr>gProcRuntimeData := AList.update m rd1 (gProcRuntimeData w),
                          os_trace := os_trace w @ [InfoRestart m (restartCount (procStatus rd1))]\<rparr>"
  have "prefix (os_trace w) (os_trace w1)"
    by (simp add: w1_def)
  also have "prefix \<dots> (os_trace (launchProcess env m w1))"
    by (rule trace_launchProcess)
  also have "launchProcess env m w1 = restart_goroutine env m w"
    using Some by (simp add: restart_goroutine_def rd1_def w1_def Let_def)
  finally show ?thesis .
qed

lemma trace_monitor_visit: "prefix (os_trace w) (os_trace (monitor_visit opens m w))"
  by (simp add: monitor_visit_def split: option.splits prod.splits)

lemma trace_shutdown_loop: "prefix (os_trace w) (os_trace (shutdown_loop env names w))"
proof (induction names arbitrary: w)
  case Nil
  then show ?case by simp
next
  case (Cons m names)
  have one: "prefix (os_trace w) (os_trace (shutdown_one env m w))"
    unfolding shutdown_one_def by (rule trace_on_record)
  also have "prefix \<dots> (os_trace (shutdown_loop env names (shutdown_one env m w)))"
    by (rule Cons.IH)
  finally show ?case
    using one by simp
qed

lemma trace_step: "prefix (os_trace w) (os_trace (step e w))"
proof (cases e)
  case (Goroutine i env)
  have "prefix (os_trace w0) (os_trace (run_task env t w0))" for t w0
    by (cases t)
       (simp_all add: trace_launchProcess trace_restart launchProcessAndWait_def trace_on_record)
  from this [of "w\<lparr>goroutines := take i (goroutines w) @ drop (Suc i) (goroutines w)\<rparr>"]
  show ?thesis
    by (simp add: step_def Goroutine)
next
  case (Monitor opens)
  have "prefix (os_trace w) (os_trace ((monitor_visit opens m w)\<lparr>monitor := pc\<rparr>))" for m pc
    using trace_monitor_visit [of w opens m] by simp
  then show ?thesis
    by (simp add: step_def Monitor monitor_step_def split: monitor_pc.splits list.splits)
next
  case (ShutdownRequest env)
  have "prefix (os_trace (w\<lparr>gStopMon := True\<rparr>)) (os_trace (ShutdownAll env w))"
    unfolding ShutdownAll_def by (rule trace_shutdown_loop)
  then show ?thesis
    by (simp add: step_def ShutdownRequest)
qed

lemma trace_run: "prefix (os_trace w) (os_trace (run es w))"
proof (induction es arbitrary: w)
  case Nil
  then show ?case by simp
next
  case (Cons e es)
  have "prefix (os_trace w) (os_trace (step e w))"
    by (rule trace_step)
  also have "prefix \<dots> (os_trace (run es (step e w)))"
    by (rule Cons.IH)
  finally show ?case
    by simp
qed

lemma counts_prefix:
  assumes "prefix tr tr'"
  shows "launches n tr \<le> launches n tr'" "exits n tr \<le> exits n tr'" "restarts n tr \<le> restarts n tr'"
  using assms by (auto simp: prefix_def)

lemma run_append: "run (es @ es') w = run es' (run es w)"
  by (induction es arbitrary: w) simp_all

text \<open>What the life of a record says about its fields and counts.\<close>

lemma lifecycle_bound:
  assumes "lifecycle n rd pend L E R"
  shows "unat (restartCount (procStatus rd)) \<le> unat (MaxRestarts (procConfig rd))"
  using assms by (auto simp: lifecycle_def Let_def split: if_splits)

lemma lifecycle_restarts:
  assumes "lifecycle n rd pend L E R"
  shows "unat (restartCount (procStatus rd)) =
           (if WaitForExitTimeoutS (procConfig rd) = 0 then R else 0)"
  using assms by (auto simp: lifecycle_def Let_def word_gt_0 split: if_splits)

lemma lifecycle_exits_le:
  assumes "lifecycle n rd pend L E R" and "WaitForExitTimeoutS (procConfig rd) = 0"
  shows "E \<le> unat (MaxRestarts (procConfig rd)) + 1"
  using assms by (auto simp: lifecycle_def Let_def)

lemma lifecycle_exhausted:
  assumes "lifecycle n rd pend L E R" and "WaitForExitTimeoutS (procConfig rd) = 0"
    and "E = unat (MaxRestarts (procConfig rd)) + 1"
  shows "pend = [] \<and> \<not> active (procStatus rd) \<and> L = unat (MaxRestarts (procConfig rd)) + 1
         \<and> R = unat (MaxRestarts (procConfig rd))
         \<and> restartCount (procStatus rd) = MaxRestarts (procConfig rd)
         \<and> (0 < MaxRestarts (procConfig rd) \<longrightarrow> error (procStatus rd))"
proof -
  have "pend = [] \<and> \<not> active (procStatus rd) \<and> L = unat (MaxRestarts (procConfig rd)) + 1
         \<and> R = unat (MaxRestarts (procConfig rd))
         \<and> unat (restartCount (procStatus rd)) = unat (MaxRestarts (procConfig rd))
         \<and> (0 < unat (MaxRestarts (procConfig rd)) \<longrightarrow> error (procStatus rd))"
    using assms by (auto simp: lifecycle_def Let_def)
  then show ?thesis
    using word_unat_eq_iff [of "restartCount (procStatus rd)" "MaxRestarts (procConfig rd)"]
    by (simp add: unat_gt_0 word_gt_0)
qed

lemma reachable_lifecycle:
  assumes "map_of (gProcRuntimeData (run es (StartProcessesFromConfig Tasks))) n = Some rd"
  shows "lifecycle n rd (pending n (goroutines (run es (StartProcessesFromConfig Tasks))))
           (launches n (os_trace (run es (StartProcessesFromConfig Tasks))))
           (exits n (os_trace (run es (StartProcessesFromConfig Tasks))))
           (restarts n (os_trace (run es (StartProcessesFromConfig Tasks))))"
  using record_inv_reachable [of n es Tasks] assms by (simp add: record_inv_def)

subsection \<open>Restarts, process ids and the restart budget\<close>

lemma observed_record:
  assumes "proc_status n w = Some st" and "config_of n w = Some cfg"
  obtains rd where "map_of (gProcRuntimeData w) n = Some rd"
    and "procStatus rd = st" and "procConfig rd = cfg"
  using assms by (auto simp: proc_status_def config_of_def)

text \<open>What a launch without waiting, and the goroutine of a restart, do to the
  status of the record, whatever the record was before.\<close>

lemma launchProcess_status_of:
  assumes "proc_status procName w = Some st"
  shows "proc_status procName (launchProcess env procName w) =
           Some (case start_result env of
                   StartError \<Rightarrow> st\<lparr>error := True\<rparr>
                 | Started p \<Rightarrow> st\<lparr>pid := p, active := True\<rparr>)"
  using assms
  by (auto simp: proc_status_def launch_defs update_conv' split: start_result.splits)

lemma restart_status_of:
  assumes "proc_status procName w = Some st"
  shows "proc_status procName (restart_goroutine env procName w) =
           Some (case start_result env of
                   StartError \<Rightarrow> st\<lparr>error := True, restartCount := restartCount st + 1\<rparr>
                 | Started p \<Rightarrow> st\<lparr>pid := p, active := True,
                                   restartCount := restartCount st + 1\<rparr>)"
proof -
  from assms obtain rd where rd: "map_of (gProcRuntimeData w) procName = Some rd"
    and st: "procStatus rd = st"
    by (auto simp: proc_status_def)
  define rd1 where "rd1 = rd\<lparr>procStatus := (procStatus rd)
                       \<lparr>restartCount := restartCount (procStatus rd) + 1\<rparr>\<rparr>"
  define w1 where "w1 = w\<lparr>gProcRuntimeData := AList.update procName rd1 (gProcRuntimeData w),
                os_trace := os_trace w @ [InfoRestart procName (restartCount (procStatus rd1))]\<rparr>"
  have "restart_goroutine env procName w = launchProcess env procName w1"
    using rd by (simp add: restart_goroutine_def rd1_def w1_def Let_def)
  moreover have "proc_status procName w1 = Some (st\<lparr>restartCount := restartCount st + 1\<rparr>)"
    using st by (simp add: proc_status_def w1_def rd1_def update_conv')
  ultimately show ?thesis
    by (simp add: launchProcess_status_of split: start_result.splits)
qed

lemma lifecycle_before_launch:
  assumes "lifecycle n rd [t] L E R" and "t = LaunchNoWait n \<or> t = Restart n"
  shows "\<not> active (procStatus rd) \<and> \<not> error (procStatus rd)
         \<and> (t = LaunchNoWait n \<longrightarrow> pid (procStatus rd) = 0)"
  using assms by (auto simp: lifecycle_def Let_def split: if_splits)

text \<open>
  C5, as the code has it. In every run of the supervisor, a launch without waiting,
  be it the first launch of a process or a restart, finds the record inactive and
  without \<^verbatim>\<open>error\<close>, and with \<^verbatim>\<open>pid\<close> unset if it is the first launch.
  When the start fails, the record is left with \<^verbatim>\<open>error\<close> set, still inactive,
  and with \<^verbatim>\<open>pid\<close> as it was: unset at a first launch, the id of the previous
  process at a restart. When the start succeeds, the record is left with \<^verbatim>\<open>pid\<close>
  the id of the new process, active, and without \<^verbatim>\<open>error\<close>.
\<close>

theorem fire_and_forget_launch:
  assumes "proc_status n (run es (StartProcessesFromConfig Tasks)) = Some st"
    and "panicked (run es (StartProcessesFromConfig Tasks)) = None"
    and "i < length (goroutines (run es (StartProcessesFromConfig Tasks)))"
    and "goroutines (run es (StartProcessesFromConfig Tasks)) ! i = LaunchNoWait n
         \<or> goroutines (run es (StartProcessesFromConfig Tasks)) ! i = Restart n"
  shows "\<not> active st \<and> \<not> error st
         \<and> (goroutines (run es (StartProcessesFromConfig Tasks)) ! i = LaunchNoWait n
              \<longrightarrow> pid st = 0)
         \<and> map_option (\<lambda>s. (pid s, active s, error s))
              (proc_status n (step (Goroutine i env) (run es (StartProcessesFromConfig Tasks))))
             = Some (case start_result env of
                       StartError \<Rightarrow> (pid st, False, True)
                     | Started p \<Rightarrow> (p, True, False))"
proof -
  let ?w = "run es (StartProcessesFromConfig Tasks)"
  let ?t = "goroutines ?w ! i"
  let ?v = "?w\<lparr>goroutines := take i (goroutines ?w) @ drop (Suc i) (goroutines ?w)\<rparr>"
  from assms(1) obtain rd where rd: "map_of (gProcRuntimeData ?w) n = Some rd"
    and st: "procStatus rd = st"
    by (auto simp: proc_status_def)
  note lc = reachable_lifecycle [OF rd]
  from assms(4) have name: "task_name ?t = n"
    by auto
  have "pending n (goroutines ?w) \<noteq> []"
    using assms(3) name by (rule pending_member)
  from lifecycle_pending [OF lc this]
  obtain t' where t': "pending n (goroutines ?w) = [t']"
    by blast
  from pending_remove_same [OF assms(3) name t'] have "?t = t'"
    by simp
  with lc t' have "lifecycle n rd [?t] (launches n (os_trace ?w)) (exits n (os_trace ?w))
                     (restarts n (os_trace ?w))"
    by simp
  from lifecycle_before_launch [OF this assms(4)] st
  have before: "\<not> active st \<and> \<not> error st \<and> (?t = LaunchNoWait n \<longrightarrow> pid st = 0)"
    by simp
  have st0: "proc_status n ?v = Some st"
    using assms(1) by (simp add: proc_status_def)
  have s: "step (Goroutine i env) ?w = run_task env ?t ?v"
    using assms(2,3) by (simp add: step_def)
  have "map_option (\<lambda>s. (pid s, active s, error s)) (proc_status n (run_task env ?t ?v))
          = Some (case start_result env of
                    StartError \<Rightarrow> (pid st, False, True)
                  | Started p \<Rightarrow> (p, True, False))"
    using assms(4) before launchProcess_status_of [OF st0, of env] restart_status_of [OF st0, of env]
    by (auto split: start_result.splits)
  with before s show ?thesis
    by simp
qed

theorem fire_and_forget_launch_witness:
  "proc_status ''Notepad''
     (run [Goroutine 0 (starts 4242), Monitor True, Monitor False]
        (StartProcessesFromConfig [default_p1]))
     = Some \<lparr>pid = 4242, active = False, error = False, timeout = False, done_flag = False,
             restartCount = 0\<rparr>
   \<and> goroutines (run [Goroutine 0 (starts 4242), Monitor True, Monitor False]
                   (StartProcessesFromConfig [default_p1])) = [Restart ''Notepad'']
   \<and> proc_status ''Notepad''
       (step (Goroutine 0 (starts 4243))
          (run [Goroutine 0 (starts 4242), Monitor True, Monitor False]
             (StartProcessesFromConfig [default_p1])))
     = Some \<lparr>pid = 4243, active = True, error = False, timeout = False, done_flag = False,
             restartCount = 1\<rparr>
   \<and> goroutines (run [] (StartProcessesFromConfig [default_p1])) = [LaunchNoWait ''Notepad'']
   \<and> proc_status ''Notepad'' (run [] (StartProcessesFromConfig [default_p1]))
     = Some \<lparr>pid = 0, active = False, error = False, timeout = False, done_flag = False,
             restartCount = 0\<rparr>
   \<and> proc_status ''Notepad''
       (step (Goroutine 0 start_fails) (run [] (StartProcessesFromConfig [default_p1])))
     = Some \<lparr>pid = 0, active = False, error = True, timeout = False, done_flag = False,
             restartCount = 0\<rparr>"
proof -
  let ?w = "run [Goroutine 0 (starts 4242), Monitor True, Monitor False]
              (StartProcessesFromConfig [default_p1])"
  let ?u = "run [] (StartProcessesFromConfig [default_p1])"
  have k1: "proc_status ''Notepad'' ?u
     = Some \<lparr>pid = 0, active = False, error = False, timeout = False, done_flag = False,
             restartCount = 0\<rparr>"
    by (simp add: proc_status_def start_defs default_p1_def)
  have k2: "panicked ?u = None"
    by (simp add: start_defs)
  have f: "goroutines ?u = [LaunchNoWait ''Notepad'']"
    by (simp add: start_defs default_p1_def)
  have k3: "0 < length (goroutines ?u)"
    by (simp only: f) simp
  have k4: "goroutines ?u ! 0 = LaunchNoWait ''Notepad'' \<or> goroutines ?u ! 0 = Restart ''Notepad''"
    by (simp only: f) simp
  have failed: "proc_status ''Notepad'' (step (Goroutine 0 start_fails) ?u)
     = Some \<lparr>pid = 0, active = False, error = True, timeout = False, done_flag = False,
             restartCount = 0\<rparr>"
    by (simp add: proc_status_def step_def launch_defs start_defs env_defs default_p1_def)
  have h1: "proc_status ''Notepad'' ?w
     = Some \<lparr>pid = 4242, active = False, error = False, timeout = False, done_flag = False,
             restartCount = 0\<rparr>"
    by (simp add: proc_status_def step_def launch_defs start_defs monitor_defs env_defs
        default_p1_def)
  have h2: "panicked ?w = None"
    by (simp add: step_def launch_defs start_defs monitor_defs env_defs default_p1_def)
  have g: "goroutines ?w = [Restart ''Notepad'']"
    by (simp add: step_def launch_defs start_defs monitor_defs env_defs default_p1_def)
  have h3: "0 < length (goroutines ?w)"
    by (simp only: g) simp
  have h4: "goroutines ?w ! 0 = LaunchNoWait ''Notepad'' \<or> goroutines ?w ! 0 = Restart ''Notepad''"
    by (simp only: g) simp
  have after: "proc_status ''Notepad'' (step (Goroutine 0 (starts 4243)) ?w)
     = Some \<lparr>pid = 4243, active = True, error = False, timeout = False, done_flag = False,
             restartCount = 1\<rparr>"
    by (simp add: proc_status_def step_def launch_defs start_defs monitor_defs env_defs
        default_p1_def)
  show ?thesis
    using fire_and_forget_launch [OF h1 h2 h3 h4, of "starts 4243"]
      fire_and_forget_launch [OF k1 k2 k3 k4, of start_fails] h1 g after k1 f failed
    by simp
qed

text \<open>
  The claim as it is written fails at a restart: Notepad is started as process 4242,
  the monitor finds it gone and spawns the restart, and the start of the restart
  fails. The record then holds \<^verbatim>\<open>error\<close> set and \<^verbatim>\<open>active\<close> clear, but
  \<^verbatim>\<open>pid\<close> is still 4242, not unset.
\<close>

theorem launchProcess_failed_restart_keeps_pid:
  "proc_status ''Notepad''
     (run [Goroutine 0 (starts 4242), Monitor True, Monitor False, Goroutine 0 start_fails]
        (StartProcessesFromConfig [default_p1]))
   = Some \<lparr>pid = 4242, active = False, error = True, timeout = False, done_flag = False,
           restartCount = 1\<rparr>"
  by (simp add: proc_status_def step_def launch_defs start_defs monitor_defs env_defs
      default_p1_def)

text \<open>
  C7. In every run of the supervisor, from \<^verbatim>\<open>StartProcessesFromConfig\<close> on and
  through any goroutines, steps of the monitor and shutdowns, the
  \<^verbatim>\<open>restartCount\<close> of a record never decreases from one point of the run to a
  later one, and it never exceeds the \<^verbatim>\<open>MaxRestarts\<close> of the record's
  configuration.
\<close>

theorem restartCount_monotone_bounded:
  assumes "proc_status n (run es (StartProcessesFromConfig Tasks)) = Some st"
    and "config_of n (run es (StartProcessesFromConfig Tasks)) = Some cfg"
    and "proc_status n (run es' (run es (StartProcessesFromConfig Tasks))) = Some st'"
  shows "restartCount st \<le> restartCount st' \<and> restartCount st' \<le> MaxRestarts cfg"
proof -
  let ?w = "run es (StartProcessesFromConfig Tasks)"
  let ?w' = "run es' ?w"
  have w': "?w' = run (es @ es') (StartProcessesFromConfig Tasks)"
    by (simp add: run_append)
  have cfg': "config_of n ?w' = Some cfg"
    using assms(2) by (simp add: config_run)
  from assms(1,2) obtain rd where rd: "map_of (gProcRuntimeData ?w) n = Some rd"
    and st: "procStatus rd = st" and cfg: "procConfig rd = cfg"
    by (rule observed_record)
  from assms(3) cfg' obtain rd' where rd': "map_of (gProcRuntimeData ?w') n = Some rd'"
    and st': "procStatus rd' = st'" and cfg'': "procConfig rd' = cfg"
    by (rule observed_record)
  note lc = reachable_lifecycle [OF rd]
  note lc' = reachable_lifecycle [OF rd' [unfolded w']]
  have "restarts n (os_trace ?w) \<le> restarts n (os_trace ?w')"
    by (intro counts_prefix trace_run)
  then have "unat (restartCount (procStatus rd)) \<le> unat (restartCount (procStatus rd'))"
    using lifecycle_restarts [OF lc] lifecycle_restarts [OF lc'] cfg cfg''
    by (simp add: w' split: if_splits)
  moreover have "unat (restartCount (procStatus rd')) \<le> unat (MaxRestarts (procConfig rd'))"
    using lc' by (rule lifecycle_bound)
  ultimately show ?thesis
    using st st' cfg'' by (simp add: word_le_nat_alt)
qed

theorem restartCount_monotone_bounded_witness:
  "proc_status ''Notepad''
     (run [Goroutine 0 (starts 4242), Monitor True, Monitor False]
        (StartProcessesFromConfig [default_p1]))
     = Some \<lparr>pid = 4242, active = False, error = False, timeout = False, done_flag = False,
             restartCount = 0\<rparr>
   \<and> proc_status ''Notepad''
       (run [Goroutine 0 (starts 4243)]
          (run [Goroutine 0 (starts 4242), Monitor True, Monitor False]
             (StartProcessesFromConfig [default_p1])))
     = Some \<lparr>pid = 4243, active = True, error = False, timeout = False, done_flag = False,
             restartCount = 1\<rparr>
   \<and> (0 :: 32 word) \<le> 1 \<and> (1 :: 32 word) \<le> MaxRestarts default_p1"
proof -
  have h1: "proc_status ''Notepad''
     (run [Goroutine 0 (starts 4242), Monitor True, Monitor False]
        (StartProcessesFromConfig [default_p1]))
     = Some \<lparr>pid = 4242, active = False, error = False, timeout = False, done_flag = False,
             restartCount = 0\<rparr>"
    by (simp add: proc_status_def step_def launch_defs start_defs monitor_defs env_defs
        default_p1_def)
  have h2: "config_of ''Notepad''
     (run [Goroutine 0 (starts 4242), Monitor True, Monitor False]
        (StartProcessesFromConfig [default_p1])) = Some default_p1"
    by (simp only: config_run) (simp add: config_of_def start_defs default_p1_def)
  have h3: "proc_status ''Notepad''
       (run [Goroutine 0 (starts 4243)]
          (run [Goroutine 0 (starts 4242), Monitor True, Monitor False]
             (StartProcessesFromConfig [default_p1])))
     = Some \<lparr>pid = 4243, active = True, error = False, timeout = False, done_flag = False,
             restartCount = 1\<rparr>"
    by (simp add: proc_status_def step_def launch_defs start_defs monitor_defs env_defs
        default_p1_def)
  show ?thesis
    using restartCount_monotone_bounded [OF h1 h2 h3] h1 h3 by simp
qed

text \<open>
  C6, as the code has it. In every run of the supervisor, a record that does not wait
  for its process (\<^verbatim>\<open>WaitForExitTimeoutS\<close> is zero) and is active holds in
  \<^verbatim>\<open>pid\<close> the id of the process of its launch handle, the process started last.
\<close>

theorem active_nowait_has_pid:
  assumes "proc_status n (run es (StartProcessesFromConfig Tasks)) = Some st"
    and "config_of n (run es (StartProcessesFromConfig Tasks)) = Some cfg"
    and "WaitForExitTimeoutS cfg = 0"
    and "active st"
  shows "launched_pid n (run es (StartProcessesFromConfig Tasks)) = Some (pid st)"
proof -
  from assms(1,2) obtain rd
    where rd: "map_of (gProcRuntimeData (run es (StartProcessesFromConfig Tasks))) n = Some rd"
      and st: "procStatus rd = st" and cfg: "procConfig rd = cfg"
    by (rule observed_record)
  from lifecycle_active [OF reachable_lifecycle [OF rd]] assms(3,4) st cfg
  show ?thesis
    by (simp add: launched_pid_def rd)
qed

theorem active_nowait_has_pid_witness:
  "proc_status ''Notepad'' (run [Goroutine 0 (starts 4242)] (StartProcessesFromConfig [default_p1]))
     = Some \<lparr>pid = 4242, active = True, error = False, timeout = False, done_flag = False,
             restartCount = 0\<rparr>
   \<and> WaitForExitTimeoutS default_p1 = 0
   \<and> launched_pid ''Notepad''
        (run [Goroutine 0 (starts 4242)] (StartProcessesFromConfig [default_p1])) = Some 4242"
proof -
  have h1: "proc_status ''Notepad''
              (run [Goroutine 0 (starts 4242)] (StartProcessesFromConfig [default_p1]))
     = Some \<lparr>pid = 4242, active = True, error = False, timeout = False, done_flag = False,
             restartCount = 0\<rparr>"
    by (simp add: proc_status_def step_def launch_defs start_defs env_defs default_p1_def)
  have h2: "config_of ''Notepad''
              (run [Goroutine 0 (starts 4242)] (StartProcessesFromConfig [default_p1]))
            = Some default_p1"
    by (simp only: config_run) (simp add: config_of_def start_defs default_p1_def)
  have h3: "WaitForExitTimeoutS default_p1 = 0"
    by (simp add: default_p1_def)
  have h4: "active \<lparr>pid = 4242, active = True, error = False, timeout = False,
                    done_flag = False, restartCount = 0\<rparr>"
    by simp
  show ?thesis
    using active_nowait_has_pid [OF h1 h2 h3 h4] h1 h3 by simp
qed

text \<open>
  The claim as it is written fails for a record that waits for its process:
  \<^verbatim>\<open>launchProcessAndWait\<close> sets \<^verbatim>\<open>active\<close> and never writes
  \<^verbatim>\<open>pid\<close>. Notepad, configured with a timeout of 5 seconds, runs as process 4242
  and exits; the record is active and its \<^verbatim>\<open>pid\<close> is still 0.
\<close>

theorem waiting_launch_active_without_pid:
  "proc_status ''Notepad''
     (run [Goroutine 0 (starts 4242)]
        (StartProcessesFromConfig [default_p1\<lparr>WaitForExitTimeoutS := 5\<rparr>]))
     = Some \<lparr>pid = 0, active = True, error = False, timeout = False, done_flag = True,
             restartCount = 0\<rparr>
   \<and> launched_pid ''Notepad''
       (run [Goroutine 0 (starts 4242)]
          (StartProcessesFromConfig [default_p1\<lparr>WaitForExitTimeoutS := 5\<rparr>])) = Some 4242"
  by (simp add: proc_status_def launched_pid_def handle_pid_def step_def launch_defs start_defs
      env_defs default_p1_def ParseDuration_seconds_total)

text \<open>
  The hypothesis of the next theorem is met for every budget: when the process of a
  single task that is launched without waiting exits after every launch, the monitor
  detects \<^verbatim>\<open>MaxRestarts\<close> + 1 exits.
\<close>

lemma running_alone_first:
  assumes "WaitForExitTimeoutS cfg = 0"
  shows "running_alone cfg 0 (run [Goroutine 0 (starts p)] (StartProcessesFromConfig [cfg]))"
  using assms
  by (simp add: running_alone_def step_def start_defs launchProcess_def on_record_def
      launchProcess_record_cases starts_def)

lemma running_alone_cycle:
  assumes "running_alone cfg j w" and "WaitForExitTimeoutS cfg = 0"
    and "j < unat (MaxRestarts cfg)"
  shows "running_alone cfg (Suc j)
           (run [Monitor True, Monitor False, Monitor True, Goroutine 0 (starts p)] w)"
proof -
  from assms(1) obtain rd where w: "gStopMon w = False" "goroutines w = []"
      "monitor w = MonGuard" "panicked w = None" "exits (Name cfg) (os_trace w) = j"
      "gProcRuntimeData w = [(Name cfg, rd)]" "procConfig rd = cfg" "procCmd rd \<noteq> None"
      "active (procStatus rd)" "unat (restartCount (procStatus rd)) = j"
    by (auto simp: running_alone_def split: option.splits)
  have m: "monitor_record False (Name cfg) rd =
             ([OpenProcess (word_of_int (pid (procStatus rd))),
               WarnExited (Name cfg) (pid (procStatus rd))] @ close_log (procLog rd),
              deactivated rd, [Restart (Name cfg)])"
    using w assms(2,3) by (simp add: monitor_record_cases Let_def)
  show ?thesis
    using w assms(2,3) m
    by (simp add: running_alone_def step_def monitor_step_def monitor_visit_def
        restart_goroutine_def launchProcess_def on_record_def launchProcess_record_cases
        starts_def deactivated_def unat_inc Let_def)
qed

lemma running_alone_cycles:
  assumes "WaitForExitTimeoutS cfg = 0" and "j \<le> unat (MaxRestarts cfg)"
  shows "running_alone cfg j
           (run ([Goroutine 0 (starts 100)] @ restart_cycles j) (StartProcessesFromConfig [cfg]))"
  using assms(2)
proof (induction j)
  case 0
  show ?case
    using running_alone_first [OF assms(1), of 100] by simp
next
  case (Suc j)
  let ?pre = "[Goroutine 0 (starts 100)] @ restart_cycles j"
  let ?cycle = "[Monitor True, Monitor False, Monitor True, Goroutine 0 (starts (101 + int j))]"
  have "running_alone cfg j (run ?pre (StartProcessesFromConfig [cfg]))"
    using Suc by simp
  then have "running_alone cfg (Suc j) (run ?cycle (run ?pre (StartProcessesFromConfig [cfg])))"
    using assms(1) by (rule running_alone_cycle) (use Suc.prems in simp)
  moreover have "[Goroutine 0 (starts 100)] @ restart_cycles (Suc j) = ?pre @ ?cycle"
    by simp
  ultimately show ?case
    by (simp only: run_append)
qed

lemma running_alone_last:
  assumes "running_alone cfg j w" and "WaitForExitTimeoutS cfg = 0"
  shows "exits (Name cfg) (os_trace (run [Monitor True, Monitor False] w)) = Suc j"
proof -
  from assms(1) obtain rd where w: "gStopMon w = False" "goroutines w = []"
      "monitor w = MonGuard" "panicked w = None" "exits (Name cfg) (os_trace w) = j"
      "gProcRuntimeData w = [(Name cfg, rd)]" "procConfig rd = cfg" "procCmd rd \<noteq> None"
      "active (procStatus rd)" "unat (restartCount (procStatus rd)) = j"
    by (auto simp: running_alone_def split: option.splits)
  have "exits (Name cfg) (fst (monitor_record False (Name cfg) rd)) = 1"
    using w assms(2) by (simp add: monitor_record_cases Let_def)
  then show ?thesis
    using w
    by (cases "monitor_record False (Name cfg) rd")
       (simp add: step_def monitor_step_def monitor_visit_def)
qed

lemma exits_every_launch_detected:
  assumes "WaitForExitTimeoutS cfg = 0"
  shows "exits (Name cfg)
           (os_trace (run (exits_every_launch (unat (MaxRestarts cfg)))
                        (StartProcessesFromConfig [cfg])))
         = unat (MaxRestarts cfg) + 1"
proof -
  have "running_alone cfg (unat (MaxRestarts cfg))
          (run ([Goroutine 0 (starts 100)] @ restart_cycles (unat (MaxRestarts cfg)))
             (StartProcessesFromConfig [cfg]))"
    using assms by (intro running_alone_cycles) simp_all
  from running_alone_last [OF this assms]
  have "exits (Name cfg)
          (os_trace (run [Monitor True, Monitor False]
             (run ([Goroutine 0 (starts 100)] @ restart_cycles (unat (MaxRestarts cfg)))
                (StartProcessesFromConfig [cfg]))))
        = unat (MaxRestarts cfg) + 1"
    by simp
  moreover have "exits_every_launch (unat (MaxRestarts cfg))
        = ([Goroutine 0 (starts 100)] @ restart_cycles (unat (MaxRestarts cfg)))
          @ [Monitor True, Monitor False]"
    by (simp add: exits_every_launch_def)
  ultimately show ?thesis
    by (simp only: run_append)
qed

lemma exits_every_launch_2:
  "exits_every_launch 2 =
     [Goroutine 0 (starts 100), Monitor True, Monitor False, Monitor True,
      Goroutine 0 (starts 101), Monitor True, Monitor False, Monitor True,
      Goroutine 0 (starts 102), Monitor True, Monitor False]"
  by (simp add: exits_every_launch_def numeral_2_eq_2)

text \<open>
  C1. Take a process that is launched without waiting and has a restart budget
  \<^verbatim>\<open>MaxRestarts\<close> of N > 0. In every run of the supervisor, once the monitor has
  detected N + 1 exits of the process, its \<^verbatim>\<open>restartCount\<close> is N,
  \<^verbatim>\<open>error\<close> is set, exactly N restarts have been attempted and the process has
  been launched N + 1 times; and however the run goes on, the number of its
  launches stays N + 1, the number of restarts stays N, no goroutine is waiting to
  launch it, and the record stays inactive with \<^verbatim>\<open>error\<close> set and
  \<^verbatim>\<open>restartCount\<close> N.
\<close>

theorem restart_budget:
  assumes "proc_status n (run es (StartProcessesFromConfig Tasks)) = Some st"
    and "config_of n (run es (StartProcessesFromConfig Tasks)) = Some cfg"
    and "WaitForExitTimeoutS cfg = 0"
    and "0 < MaxRestarts cfg"
    and "exits n (os_trace (run es (StartProcessesFromConfig Tasks))) = unat (MaxRestarts cfg) + 1"
  shows "restartCount st = MaxRestarts cfg \<and> error st \<and> \<not> active st
         \<and> restarts n (os_trace (run es (StartProcessesFromConfig Tasks))) = unat (MaxRestarts cfg)
         \<and> launches n (os_trace (run es (StartProcessesFromConfig Tasks)))
             = unat (MaxRestarts cfg) + 1
         \<and> launches n (os_trace (run es' (run es (StartProcessesFromConfig Tasks))))
             = unat (MaxRestarts cfg) + 1
         \<and> restarts n (os_trace (run es' (run es (StartProcessesFromConfig Tasks))))
             = unat (MaxRestarts cfg)
         \<and> pending n (goroutines (run es' (run es (StartProcessesFromConfig Tasks)))) = []
         \<and> map_option (\<lambda>s. (restartCount s, error s, active s))
              (proc_status n (run es' (run es (StartProcessesFromConfig Tasks))))
             = Some (MaxRestarts cfg, True, False)"
proof -
  let ?w = "run es (StartProcessesFromConfig Tasks)"
  let ?w' = "run es' ?w"
  let ?N = "unat (MaxRestarts cfg)"
  have w': "?w' = run (es @ es') (StartProcessesFromConfig Tasks)"
    by (simp add: run_append)
  from assms(1,2) obtain rd where rd: "map_of (gProcRuntimeData ?w) n = Some rd"
    and st: "procStatus rd = st" and cfg: "procConfig rd = cfg"
    by (rule observed_record)
  note lc = reachable_lifecycle [OF rd]
  have now: "pending n (goroutines ?w) = [] \<and> \<not> active st \<and> launches n (os_trace ?w) = ?N + 1
             \<and> restarts n (os_trace ?w) = ?N \<and> restartCount st = MaxRestarts cfg
             \<and> (0 < MaxRestarts cfg \<longrightarrow> error st)"
    using lifecycle_exhausted [OF lc] assms(3,5) st cfg by simp
  have "config_of n ?w' = config_of n ?w"
    by (rule config_run)
  then obtain rd' where rd': "map_of (gProcRuntimeData ?w') n = Some rd'"
    and cfg': "procConfig rd' = cfg"
    using rd cfg by (auto simp: config_of_def)
  note lc' = reachable_lifecycle [OF rd' [unfolded w']]
  have "exits n (os_trace ?w) \<le> exits n (os_trace ?w')"
    by (intro counts_prefix trace_run)
  moreover have "exits n (os_trace ?w') \<le> ?N + 1"
    using lifecycle_exits_le [OF lc'] assms(3) cfg' by (simp add: w')
  ultimately have "exits n (os_trace ?w') = unat (MaxRestarts (procConfig rd')) + 1"
    using assms(5) cfg' by simp
  from lifecycle_exhausted [OF lc' _ this [unfolded w']] assms(3,4) cfg'
  have "pending n (goroutines ?w') = [] \<and> launches n (os_trace ?w') = ?N + 1
        \<and> restarts n (os_trace ?w') = ?N
        \<and> restartCount (procStatus rd') = MaxRestarts cfg
        \<and> error (procStatus rd') \<and> \<not> active (procStatus rd')"
    by (simp add: w')
  moreover have "proc_status n ?w' = Some (procStatus rd')"
    using rd' by (simp add: proc_status_def)
  ultimately show ?thesis
    using now assms(4) by simp
qed

theorem restart_budget_witness:
  "proc_status ''Notepad''
     (run (exits_every_launch 2) (StartProcessesFromConfig [default_p1\<lparr>MaxRestarts := 2\<rparr>]))
     = Some \<lparr>pid = 102, active = False, error = True, timeout = False, done_flag = False,
             restartCount = 2\<rparr>
   \<and> exits ''Notepad''
       (os_trace (run (exits_every_launch 2) (StartProcessesFromConfig [default_p1\<lparr>MaxRestarts := 2\<rparr>]))) = 3
   \<and> restarts ''Notepad''
       (os_trace (run (exits_every_launch 2) (StartProcessesFromConfig [default_p1\<lparr>MaxRestarts := 2\<rparr>]))) = 2
   \<and> launches ''Notepad''
       (os_trace (run (exits_every_launch 2) (StartProcessesFromConfig [default_p1\<lparr>MaxRestarts := 2\<rparr>]))) = 3
   \<and> launches ''Notepad''
       (os_trace (run [Monitor True, Monitor True, Monitor False, Goroutine 0 (starts 103)]
          (run (exits_every_launch 2) (StartProcessesFromConfig [default_p1\<lparr>MaxRestarts := 2\<rparr>])))) = 3
   \<and> restarts ''Notepad''
       (os_trace (run [Monitor True, Monitor True, Monitor False, Goroutine 0 (starts 103)]
          (run (exits_every_launch 2) (StartProcessesFromConfig [default_p1\<lparr>MaxRestarts := 2\<rparr>])))) = 2"
proof -
  let ?init = "StartProcessesFromConfig [default_p1\<lparr>MaxRestarts := 2\<rparr>]"
  have h1: "proc_status ''Notepad'' (run (exits_every_launch 2) ?init)
     = Some \<lparr>pid = 102, active = False, error = True, timeout = False, done_flag = False,
             restartCount = 2\<rparr>"
    by (simp add: exits_every_launch_2 proc_status_def step_def launch_defs start_defs monitor_defs
        env_defs default_p1_def)
  have h2: "config_of ''Notepad'' (run (exits_every_launch 2) ?init) = Some (default_p1\<lparr>MaxRestarts := 2\<rparr>)"
    by (simp only: config_run) (simp add: config_of_def start_defs default_p1_def)
  have h3: "WaitForExitTimeoutS (default_p1\<lparr>MaxRestarts := 2\<rparr>) = 0"
    by (simp add: default_p1_def)
  have h4: "0 < MaxRestarts (default_p1\<lparr>MaxRestarts := 2\<rparr>)"
    by simp
  have h5: "exits ''Notepad'' (os_trace (run (exits_every_launch 2) ?init))
              = unat (MaxRestarts (default_p1\<lparr>MaxRestarts := 2\<rparr>)) + 1"
    by (simp add: exits_every_launch_2 step_def launch_defs start_defs monitor_defs
        env_defs default_p1_def)
  show ?thesis
    using restart_budget [OF h1 h2 h3 h4 h5,
        of "[Monitor True, Monitor True, Monitor False, Goroutine 0 (starts 103)]"] h1 h5
    by simp
qed

end
